theory Spec2Isabelle
  imports Complex_Main "HOL-Library.AList"
begin

section \<open>The randint generator sensor (src/models/sensor.py)\<close>

text \<open>
  The module is one class, \<open>RandintGenerator\<close>, whose methods read and write six
  attributes and the process-wide random source of numpy. The embedding keeps the
  attributes in a record, threads the record through every method, and returns each
  exception as a value. A method that raises after it has already assigned some
  attribute returns the exception together with the partly updated record, as the
  object is left in Python.
\<close>

subsection \<open>Python values\<close>

text \<open>
  A Python float is a finite number, a NaN or an infinity. The finite ones are kept as
  rationals (every double is one).
\<close>

datatype pyfloat = Finite rat | NaN | PosInf | NegInf

text \<open>The values a command mapping may carry (\<open>viam.utils.ValueTypes\<close>).\<close>

datatype pyval =
    PyNone
  | PyBool bool
  | PyInt int
  | PyFloat pyfloat
  | PyStr string
  | PyList "pyval list"
  | PyDict "(string \<times> pyval) list"

text \<open>
  One constructor for each place that raises, in the module or in the library call it
  makes; \<open>exc_class\<close> gives the Python exception class of each.
\<close>

datatype error =
    NamesLengthMismatch nat int   \<comment> \<open>validate_config, reading_names against num_readings\<close>
  | LowNotLessThanHigh int int    \<comment> \<open>validate_config, low >= high\<close>
  | InvalidDtype string           \<comment> \<open>validate_config, dtype not in valid_dtypes\<close>
  | MissingCommand                \<comment> \<open>do_command, no 'command' field\<close>
  | ReseedRequiresSeed            \<comment> \<open>do_command, reseed without 'seed'\<close>
  | SeedMustBeInteger             \<comment> \<open>do_command, reseed with a seed that is no number\<close>
  | BatchSizeNotPositive          \<comment> \<open>do_command, generate_batch with a bad size\<close>
  | CommandNotImplemented pyval   \<comment> \<open>do_command, any other command\<close>
  | CannotConvertNaN              \<comment> \<open>int(nan)\<close>
  | CannotConvertInfinity         \<comment> \<open>int(inf), int(-inf)\<close>
  | SeedOutOfRange int            \<comment> \<open>np.random.seed outside 0 .. 2**32 - 1\<close>
  | RandintRejected               \<comment> \<open>np.random.randint on bad bounds or a negative size\<close>
  | NoSuchDtype string            \<comment> \<open>getattr(np, dtype) finds no integer type\<close>
  | NoReadingName                 \<comment> \<open>reading_names[0] on an empty list\<close>

datatype pyexc =
  ValueError | OverflowError | NotImplementedError | AttributeError | IndexError

fun exc_class :: "error \<Rightarrow> pyexc" where
  "exc_class (NamesLengthMismatch _ _) = ValueError"
| "exc_class (LowNotLessThanHigh _ _) = ValueError"
| "exc_class (InvalidDtype _) = ValueError"
| "exc_class MissingCommand = ValueError"
| "exc_class ReseedRequiresSeed = ValueError"
| "exc_class SeedMustBeInteger = ValueError"
| "exc_class BatchSizeNotPositive = ValueError"
| "exc_class (CommandNotImplemented _) = NotImplementedError"
| "exc_class CannotConvertNaN = ValueError"
| "exc_class CannotConvertInfinity = OverflowError"
| "exc_class (SeedOutOfRange _) = ValueError"
| "exc_class RandintRejected = ValueError"
| "exc_class (NoSuchDtype _) = AttributeError"
| "exc_class NoReadingName = IndexError"

text \<open>\<open>int(x)\<close> on a float truncates toward zero and raises on NaN and infinities.\<close>

definition trunc_toward_zero :: "rat \<Rightarrow> int" where
  "trunc_toward_zero q = (if 0 \<le> q then \<lfloor>q\<rfloor> else \<lceil>q\<rceil>)"

fun int_of_float :: "pyfloat \<Rightarrow> error + int" where
  "int_of_float (Finite q) = Inr (trunc_toward_zero q)"
| "int_of_float NaN = Inl CannotConvertNaN"
| "int_of_float PosInf = Inl CannotConvertInfinity"
| "int_of_float NegInf = Inl CannotConvertInfinity"

text \<open>\<open>isinstance(v, (int, float))\<close>: bool is a subclass of int.\<close>

fun is_int_or_float :: "pyval \<Rightarrow> bool" where
  "is_int_or_float (PyBool _) = True"
| "is_int_or_float (PyInt _) = True"
| "is_int_or_float (PyFloat _) = True"
| "is_int_or_float _ = False"

text \<open>\<open>int(v)\<close> and \<open>v <= 0\<close> for a value that passed the isinstance test.\<close>

fun int_of_number :: "pyval \<Rightarrow> error + int" where
  "int_of_number (PyBool b) = Inr (if b then 1 else 0)"
| "int_of_number (PyInt i) = Inr i"
| "int_of_number (PyFloat x) = int_of_float x"
| "int_of_number _ = Inr 0"

fun le_zero :: "pyval \<Rightarrow> bool" where
  "le_zero (PyBool b) = (\<not> b)"
| "le_zero (PyInt i) = (i \<le> 0)"
| "le_zero (PyFloat (Finite q)) = (q \<le> 0)"
| "le_zero (PyFloat NaN) = False"
| "le_zero (PyFloat PosInf) = False"
| "le_zero (PyFloat NegInf) = True"
| "le_zero _ = False"

text \<open>Truth value of an object, as \<open>not cmd\<close> tests it.\<close>

fun truthy :: "pyval \<Rightarrow> bool" where
  "truthy PyNone = False"
| "truthy (PyBool b) = b"
| "truthy (PyInt i) = (i \<noteq> 0)"
| "truthy (PyFloat (Finite q)) = (q \<noteq> 0)"
| "truthy (PyFloat _) = True"
| "truthy (PyStr s) = (s \<noteq> [])"
| "truthy (PyList xs) = (xs \<noteq> [])"
| "truthy (PyDict kvs) = (kvs \<noteq> [])"

text \<open>\<open>str(n)\<close> for a natural number, used by the f-string \<open>f"value_{i+1}"\<close>.\<close>

fun str_nat :: "nat \<Rightarrow> string" where
  "str_nat n =
     (if n < 10 then [''0123456789'' ! n]
      else str_nat (n div 10) @ [''0123456789'' ! (n mod 10)])"

text \<open>
  A dictionary keeps its keys in insertion order; storing under a key that is present
  replaces the value where it stands. A dict comprehension stores the pairs from left
  to right.
\<close>

definition dict_comprehension :: "('k \<times> 'v) list \<Rightarrow> ('k \<times> 'v) list" where
  "dict_comprehension kvs = fold (\<lambda>(k, v) d. AList.update k v d) kvs []"

subsection \<open>Configuration attributes (google.protobuf.Struct)\<close>

text \<open>
  \<open>config.attributes.fields\<close> maps attribute names to protobuf \<open>Value\<close>s. Reading a
  field of a \<open>Value\<close> that holds another kind gives that field's default and never
  raises.
\<close>

datatype pvalue =
    NullValue
  | NumberValue pyfloat
  | StringValue string
  | BoolValue bool
  | StructValue "(string \<times> pvalue) list"
  | ListValue "pvalue list"

type_synonym attributes = "string \<rightharpoonup> pvalue"

fun number_value :: "pvalue \<Rightarrow> pyfloat" where
  "number_value (NumberValue x) = x"
| "number_value _ = Finite 0"

fun string_value :: "pvalue \<Rightarrow> string" where
  "string_value (StringValue s) = s"
| "string_value _ = []"

fun list_values :: "pvalue \<Rightarrow> pvalue list" where
  "list_values (ListValue vs) = vs"
| "list_values _ = []"

definition make_number_value :: "rat \<Rightarrow> pvalue" where
  "make_number_value x = NumberValue (Finite x)"

definition make_string_value :: "string \<Rightarrow> pvalue" where
  "make_string_value s = StringValue s"

text \<open>\<open>attributes.get(key, default)\<close>.\<close>

definition attr_get :: "attributes \<Rightarrow> string \<Rightarrow> pvalue \<Rightarrow> pvalue" where
  "attr_get attrs k d = (case attrs k of None \<Rightarrow> d | Some v \<Rightarrow> v)"

subsection \<open>The random source (numpy.random)\<close>

datatype np_dtype = Int8 | Int16 | Int32 | Int64 | UInt8 | UInt16 | UInt32 | UInt64

definition valid_dtypes :: "string list" where
  "valid_dtypes =
     [''int8'', ''int16'', ''int32'', ''int64'', ''uint8'', ''uint16'', ''uint32'', ''uint64'']"

text \<open>
  \<open>getattr(np, name)\<close>, for the eight names the module validates. Other names are
  reported as absent; the aliases numpy has for integer types can only be reached
  through a configuration that was not validated and are not modelled.
\<close>

definition np_getattr :: "string \<Rightarrow> error + np_dtype" where
  "np_getattr name =
     (if name = ''int8'' then Inr Int8
      else if name = ''int16'' then Inr Int16
      else if name = ''int32'' then Inr Int32
      else if name = ''int64'' then Inr Int64
      else if name = ''uint8'' then Inr UInt8
      else if name = ''uint16'' then Inr UInt16
      else if name = ''uint32'' then Inr UInt32
      else if name = ''uint64'' then Inr UInt64
      else Inl (NoSuchDtype name))"

fun dtype_min :: "np_dtype \<Rightarrow> int" where
  "dtype_min Int8 = - (2 ^ 7)"
| "dtype_min Int16 = - (2 ^ 15)"
| "dtype_min Int32 = - (2 ^ 31)"
| "dtype_min Int64 = - (2 ^ 63)"
| "dtype_min _ = 0"

fun dtype_max :: "np_dtype \<Rightarrow> int" where
  "dtype_max Int8 = 2 ^ 7 - 1"
| "dtype_max Int16 = 2 ^ 15 - 1"
| "dtype_max Int32 = 2 ^ 31 - 1"
| "dtype_max Int64 = 2 ^ 63 - 1"
| "dtype_max UInt8 = 2 ^ 8 - 1"
| "dtype_max UInt16 = 2 ^ 16 - 1"
| "dtype_max UInt32 = 2 ^ 32 - 1"
| "dtype_max UInt64 = 2 ^ 64 - 1"

text \<open>
  numpy is not part of the repository. Its generator is a parameter of the model: a
  state type \<open>'g\<close> with the state that \<open>np.random.seed(n)\<close> installs, a scalar draw and
  an array draw (the array in flat, row-major order), each returning the advanced
  state.
\<close>

record 'g numpy_random =
  seeded :: "int \<Rightarrow> 'g"
  draw_scalar :: "'g \<Rightarrow> np_dtype \<Rightarrow> int \<Rightarrow> int \<Rightarrow> int \<times> 'g"
  draw_array :: "'g \<Rightarrow> np_dtype \<Rightarrow> int \<Rightarrow> int \<Rightarrow> nat \<Rightarrow> int list \<times> 'g"

text \<open>
  The argument checks of \<open>np.random.randint(low, high, size, dtype)\<close>: the bounds must
  lie in the range of the dtype with \<open>low < high\<close>, and no dimension may be negative;
  otherwise it raises ValueError and draws nothing. A size with no elements is answered
  first: numpy returns the empty array of that shape without looking at the bounds and
  without touching the generator.
\<close>

definition bounds_ok :: "np_dtype \<Rightarrow> int \<Rightarrow> int \<Rightarrow> bool" where
  "bounds_ok d lo hi \<longleftrightarrow> dtype_min d \<le> lo \<and> hi \<le> dtype_max d + 1 \<and> lo < hi"

definition randint :: "'g numpy_random \<Rightarrow> 'g \<Rightarrow> np_dtype \<Rightarrow> int \<Rightarrow> int \<Rightarrow> error + int \<times> 'g" where
  "randint R g d lo hi =
     (if bounds_ok d lo hi then Inr (draw_scalar R g d lo hi) else Inl RandintRejected)"

definition randint_sized ::
  "'g numpy_random \<Rightarrow> 'g \<Rightarrow> np_dtype \<Rightarrow> int \<Rightarrow> int \<Rightarrow> int \<Rightarrow> error + int list \<times> 'g" where
  "randint_sized R g d lo hi n =
     (if n < 0 then Inl RandintRejected
      else if n = 0 then Inr ([], g)
      else if bounds_ok d lo hi then Inr (draw_array R g d lo hi (nat n))
      else Inl RandintRejected)"

text \<open>A two-dimensional draw of shape \<open>(rows, cols)\<close>, given as its list of rows.\<close>

definition randint_matrix ::
  "'g numpy_random \<Rightarrow> 'g \<Rightarrow> np_dtype \<Rightarrow> int \<Rightarrow> int \<Rightarrow> int \<Rightarrow> int \<Rightarrow> error + int list list \<times> 'g" where
  "randint_matrix R g d lo hi rows cols =
     (if rows < 0 \<or> cols < 0 then Inl RandintRejected
      else if rows * cols = 0 then Inr (replicate (nat rows) [], g)
      else if bounds_ok d lo hi then
        (let (flat, g') = draw_array R g d lo hi (nat rows * nat cols)
         in Inr (map (\<lambda>i. take (nat cols) (drop (i * nat cols) flat)) [0..<nat rows], g'))
      else Inl RandintRejected)"

text \<open>
  What the documentation of numpy promises about a draw whose arguments passed the
  checks: every value lies in \<open>[low, high)\<close>, and an array has the requested number of
  entries. The theorems that speak about drawn values assume it.
\<close>

definition randint_contract :: "'g numpy_random \<Rightarrow> bool" where
  "randint_contract R \<longleftrightarrow>
     (\<forall>g d lo hi. bounds_ok d lo hi \<longrightarrow>
        lo \<le> fst (draw_scalar R g d lo hi) \<and> fst (draw_scalar R g d lo hi) < hi) \<and>
     (\<forall>g d lo hi n. bounds_ok d lo hi \<longrightarrow>
        length (fst (draw_array R g d lo hi n)) = n \<and>
        (\<forall>v \<in> set (fst (draw_array R g d lo hi n)). lo \<le> v \<and> v < hi))"

text \<open>
  A concrete source for evaluating the model on examples: its state is a counter, and
  each draw maps the counter into the requested interval.
\<close>

definition counter_source :: "int numpy_random" where
  "counter_source =
     \<lparr> seeded = (\<lambda>n. n),
       draw_scalar = (\<lambda>g d lo hi. (lo + g mod (hi - lo), g + 1)),
       draw_array = (\<lambda>g d lo hi n.
          (map (\<lambda>i. lo + (g + int i) mod (hi - lo)) [0..<n], g + int n)) \<rparr>"

subsection \<open>The generator\<close>

record 'g generator =
  low :: int
  high :: int
  num_readings :: int
  reading_names :: "string list"
  dtype :: string
  seed :: "int option"
  np_random :: 'g   \<comment> \<open>the state of numpy's global generator\<close>

text \<open>\<open>__init__\<close>: the default attributes; \<open>g\<close> is the state numpy is in.\<close>

definition init :: "'g \<Rightarrow> 'g generator" where
  "init g =
     \<lparr> low = 0, high = 100, num_readings = 1, reading_names = [''value''],
       dtype = ''int32'', seed = None, np_random = g \<rparr>"

subsection \<open>validate_config\<close>

text \<open>
  The three checks, in the order of the source. Each one runs only when the
  attributes it compares are present.
\<close>

definition check_reading_names :: "attributes \<Rightarrow> error + unit" where
  "check_reading_names attrs =
     (case (attrs ''num_readings'', attrs ''reading_names'') of
        (Some nv, Some rv) \<Rightarrow>
          (case int_of_float (number_value nv) of
             Inl e \<Rightarrow> Inl e
           | Inr n \<Rightarrow>
               (let names = map string_value (list_values rv)
                in if int (length names) \<noteq> n then Inl (NamesLengthMismatch (length names) n)
                   else Inr ()))
      | _ \<Rightarrow> Inr ())"

definition check_bounds :: "attributes \<Rightarrow> error + unit" where
  "check_bounds attrs =
     (case (attrs ''low'', attrs ''high'') of
        (Some lv, Some hv) \<Rightarrow>
          (case int_of_float (number_value lv) of
             Inl e \<Rightarrow> Inl e
           | Inr lo \<Rightarrow>
               (case int_of_float (number_value hv) of
                  Inl e \<Rightarrow> Inl e
                | Inr hi \<Rightarrow> if lo \<ge> hi then Inl (LowNotLessThanHigh lo hi) else Inr ()))
      | _ \<Rightarrow> Inr ())"

definition check_dtype :: "attributes \<Rightarrow> error + unit" where
  "check_dtype attrs =
     (case attrs ''dtype'' of
        Some dv \<Rightarrow>
          (if string_value dv \<notin> set valid_dtypes then Inl (InvalidDtype (string_value dv))
           else Inr ())
      | None \<Rightarrow> Inr ())"

text \<open>On success the method returns two empty lists of dependencies.\<close>

definition validate_config :: "attributes \<Rightarrow> error + string list \<times> string list" where
  "validate_config attrs =
     (case check_reading_names attrs of
        Inl e \<Rightarrow> Inl e
      | Inr _ \<Rightarrow>
          (case check_bounds attrs of
             Inl e \<Rightarrow> Inl e
           | Inr _ \<Rightarrow>
               (case check_dtype attrs of
                  Inl e \<Rightarrow> Inl e
                | Inr _ \<Rightarrow> Inr ([], []))))"

subsection \<open>reconfigure\<close>

text \<open>\<open>np.random.seed(n)\<close> accepts \<open>0 \<le> n < 2**32\<close> and raises ValueError otherwise.\<close>

definition np_random_seed ::
  "'g numpy_random \<Rightarrow> int \<Rightarrow> 'g generator \<Rightarrow> error option \<times> 'g generator" where
  "np_random_seed R n s =
     (if 0 \<le> n \<and> n < 2 ^ 32 then (None, s\<lparr>np_random := seeded R n\<rparr>)
      else (Some (SeedOutOfRange n), s))"

text \<open>The names the source derives when \<open>reading_names\<close> is not configured.\<close>

definition default_names :: "int \<Rightarrow> string list" where
  "default_names n =
     (if n = 1 then [''value'']
      else map (\<lambda>i. ''value_'' @ str_nat (i + 1)) [0..<nat n])"

text \<open>
  The assignments are made one after the other; a conversion that raises leaves the
  earlier ones in place.
\<close>

definition reconfigure ::
  "'g numpy_random \<Rightarrow> attributes \<Rightarrow> 'g generator \<Rightarrow> error option \<times> 'g generator" where
  "reconfigure R attrs s =
     (case int_of_float (number_value (attr_get attrs ''low'' (make_number_value 0))) of
        Inl e \<Rightarrow> (Some e, s)
      | Inr lo \<Rightarrow>
     (let s1 = s\<lparr>low := lo\<rparr> in
      case int_of_float (number_value (attr_get attrs ''high'' (make_number_value 100))) of
        Inl e \<Rightarrow> (Some e, s1)
      | Inr hi \<Rightarrow>
     (let s2 = s1\<lparr>high := hi\<rparr> in
      case int_of_float (number_value (attr_get attrs ''num_readings'' (make_number_value 1))) of
        Inl e \<Rightarrow> (Some e, s2)
      | Inr n \<Rightarrow>
     (let s3 = s2\<lparr>num_readings := n\<rparr>;
          s4 = s3\<lparr>reading_names :=
                   (case attrs ''reading_names'' of
                      Some rv \<Rightarrow> map string_value (list_values rv)
                    | None \<Rightarrow> default_names n)\<rparr>;
          s5 = s4\<lparr>dtype := string_value (attr_get attrs ''dtype'' (make_string_value ''int32''))\<rparr>
      in case attrs ''seed'' of
           Some sv \<Rightarrow>
             (case int_of_float (number_value sv) of
                Inl e \<Rightarrow> (Some e, s5)
              | Inr n' \<Rightarrow> np_random_seed R n' (s5\<lparr>seed := Some n'\<rparr>))
         | None \<Rightarrow> (None, s5\<lparr>seed := None\<rparr>)))))"

text \<open>\<open>new\<close>: construct with the defaults, then reconfigure.\<close>

definition new :: "'g numpy_random \<Rightarrow> attributes \<Rightarrow> 'g \<Rightarrow> error option \<times> 'g generator" where
  "new R attrs g = reconfigure R attrs (init g)"

text \<open>A sequence of reconfigure calls on one object, whether or not a call raises.\<close>

definition reconfigure_all ::
  "'g numpy_random \<Rightarrow> attributes list \<Rightarrow> 'g generator \<Rightarrow> 'g generator" where
  "reconfigure_all R cfgs s = fold (\<lambda>attrs s'. snd (reconfigure R attrs s')) cfgs s"

subsection \<open>get_readings\<close>

text \<open>
  The draw comes before the subscript \<open>reading_names[0]\<close>, so an empty list of names
  raises IndexError after the source has advanced.
\<close>

definition get_readings ::
  "'g numpy_random \<Rightarrow> 'g generator \<Rightarrow> (error + (string \<times> int) list) \<times> 'g generator" where
  "get_readings R s =
     (case np_getattr (dtype s) of
        Inl e \<Rightarrow> (Inl e, s)
      | Inr d \<Rightarrow>
          if num_readings s = 1 then
            (case randint R (np_random s) d (low s) (high s) of
               Inl e \<Rightarrow> (Inl e, s)
             | Inr (v, g') \<Rightarrow>
                 (case reading_names s of
                    [] \<Rightarrow> (Inl NoReadingName, s\<lparr>np_random := g'\<rparr>)
                  | name # _ \<Rightarrow> (Inr [(name, v)], s\<lparr>np_random := g'\<rparr>)))
          else
            (case randint_sized R (np_random s) d (low s) (high s) (num_readings s) of
               Inl e \<Rightarrow> (Inl e, s)
             | Inr (vs, g') \<Rightarrow>
                 (Inr (dict_comprehension (zip (reading_names s) vs)), s\<lparr>np_random := g'\<rparr>)))"

text \<open>\<open>k\<close> calls in a row, collecting what each returns or raises.\<close>

fun read_many ::
  "'g numpy_random \<Rightarrow> nat \<Rightarrow> 'g generator \<Rightarrow> (error + (string \<times> int) list) list" where
  "read_many R 0 s = []"
| "read_many R (Suc k) s = fst (get_readings R s) # read_many R k (snd (get_readings R s))"

subsection \<open>do_command\<close>

type_synonym command = "string \<rightharpoonup> pyval"

definition get_config :: "'g generator \<Rightarrow> (string \<times> pyval) list" where
  "get_config s =
     [(''low'', PyInt (low s)),
      (''high'', PyInt (high s)),
      (''num_readings'', PyInt (num_readings s)),
      (''reading_names'', PyList (map PyStr (reading_names s))),
      (''dtype'', PyStr (dtype s)),
      (''seed'', (case seed s of None \<Rightarrow> PyNone | Some n \<Rightarrow> PyInt n))]"

definition reseed ::
  "'g numpy_random \<Rightarrow> command \<Rightarrow> 'g generator \<Rightarrow>
   (error + (string \<times> pyval) list) \<times> 'g generator" where
  "reseed R command s =
     (let new_seed = (case command ''seed'' of None \<Rightarrow> PyNone | Some v \<Rightarrow> v) in
      if new_seed = PyNone then (Inl ReseedRequiresSeed, s)
      else if \<not> is_int_or_float new_seed then (Inl SeedMustBeInteger, s)
      else
        (case int_of_number new_seed of
           Inl e \<Rightarrow> (Inl e, s)
         | Inr n \<Rightarrow>
             (case np_random_seed R n (s\<lparr>seed := Some n\<rparr>) of
                (Some e, s') \<Rightarrow> (Inl e, s')
              | (None, s') \<Rightarrow> (Inr [(''status'', PyStr ''reseeded''), (''seed'', PyInt n)], s'))))"

definition generate_batch ::
  "'g numpy_random \<Rightarrow> command \<Rightarrow> 'g generator \<Rightarrow>
   (error + (string \<times> pyval) list) \<times> 'g generator" where
  "generate_batch R command s =
     (let batch_size = (case command ''size'' of None \<Rightarrow> PyInt 10 | Some v \<Rightarrow> v) in
      if \<not> is_int_or_float batch_size \<or> le_zero batch_size then (Inl BatchSizeNotPositive, s)
      else
        (case int_of_number batch_size of
           Inl e \<Rightarrow> (Inl e, s)
         | Inr b \<Rightarrow>
        (case np_getattr (dtype s) of
           Inl e \<Rightarrow> (Inl e, s)
         | Inr d \<Rightarrow>
             if num_readings s = 1 then
               (case randint_sized R (np_random s) d (low s) (high s) b of
                  Inl e \<Rightarrow> (Inl e, s)
                | Inr (vs, g') \<Rightarrow>
                    (case reading_names s of
                       [] \<Rightarrow> (Inl NoReadingName, s\<lparr>np_random := g'\<rparr>)
                     | name # _ \<Rightarrow>
                         (Inr [(''batch'', PyList (map PyInt vs)),
                               (''batch_size'', PyInt b),
                               (''reading_name'', PyStr name)],
                          s\<lparr>np_random := g'\<rparr>)))
             else
               (case randint_matrix R (np_random s) d (low s) (high s) b (num_readings s) of
                  Inl e \<Rightarrow> (Inl e, s)
                | Inr (rows, g') \<Rightarrow>
                    (Inr [(''batch'',
                             PyList (map (\<lambda>row. PyDict (map (\<lambda>(name, val). (name, PyInt val))
                                       (dict_comprehension (zip (reading_names s) row)))) rows)),
                          (''batch_size'', PyInt b),
                          (''reading_names'', PyList (map PyStr (reading_names s)))],
                     s\<lparr>np_random := g'\<rparr>)))))"

definition do_command ::
  "'g numpy_random \<Rightarrow> command \<Rightarrow> 'g generator \<Rightarrow>
   (error + (string \<times> pyval) list) \<times> 'g generator" where
  "do_command R command s =
     (let cmd = (case command ''command'' of None \<Rightarrow> PyNone | Some v \<Rightarrow> v) in
      if \<not> truthy cmd then (Inl MissingCommand, s)
      else if cmd = PyStr ''get_config'' then (Inr (get_config s), s)
      else if cmd = PyStr ''reseed'' then reseed R command s
      else if cmd = PyStr ''generate_batch'' then generate_batch R command s
      else (Inl (CommandNotImplemented cmd), s))"

subsection \<open>get_geometries\<close>

definition get_geometries :: "'g generator \<Rightarrow> unit list" where
  "get_geometries s = []"

subsection \<open>Notions used to state the properties\<close>

text \<open>
  The values that a multi-channel call of \<open>get_readings\<close> draws in state \<open>s\<close>, in
  channel order.
\<close>

definition drawn_values :: "'g numpy_random \<Rightarrow> 'g generator \<Rightarrow> int list" where
  "drawn_values R s =
     (case np_getattr (dtype s) of
        Inl _ \<Rightarrow> []
      | Inr d \<Rightarrow> fst (draw_array R (np_random s) d (low s) (high s) (nat (num_readings s))))"

text \<open>
  A configuration in which \<open>reading_names\<close> comes only together with \<open>num_readings\<close>,
  and in which a \<open>num_readings\<close> without names is not negative.
\<close>

definition names_follow_count :: "attributes \<Rightarrow> bool" where
  "names_follow_count attrs \<longleftrightarrow>
     (case attrs ''reading_names'' of
        Some _ \<Rightarrow> attrs ''num_readings'' \<noteq> None
      | None \<Rightarrow>
          (case int_of_float (number_value (attr_get attrs ''num_readings'' (make_number_value 1))) of
             Inl _ \<Rightarrow> True
           | Inr n \<Rightarrow> 0 \<le> n))"

text \<open>Two objects configured alike; seed and random source may differ.\<close>

definition same_configuration :: "'g generator \<Rightarrow> 'g generator \<Rightarrow> bool" where
  "same_configuration s1 s2 \<longleftrightarrow>
     low s1 = low s2 \<and> high s1 = high s2 \<and> num_readings s1 = num_readings s2 \<and>
     reading_names s1 = reading_names s2 \<and> dtype s1 = dtype s2"

text \<open>A run: the reseed command with seed \<open>sv\<close>, then \<open>k\<close> calls of \<open>get_readings\<close>.\<close>

definition reseed_then_read ::
  "'g numpy_random \<Rightarrow> pyval \<Rightarrow> nat \<Rightarrow> 'g generator \<Rightarrow>
   (error + (string \<times> pyval) list) \<times> (error + (string \<times> int) list) list" where
  "reseed_then_read R sv k s =
     (let (r, s') = do_command R [''command'' \<mapsto> PyStr ''reseed'', ''seed'' \<mapsto> sv] s
      in (r, read_many R k s'))"

text \<open>
  A state in which numpy accepts the draw of a batch: the dtype is one of the eight,
  the bounds are ordered and fit it, the number of channels is not negative, and a
  single channel has a name.
\<close>

definition drawable :: "'g generator \<Rightarrow> bool" where
  "drawable s \<longleftrightarrow>
     (case np_getattr (dtype s) of
        Inl _ \<Rightarrow> False
      | Inr d \<Rightarrow> bounds_ok d (low s) (high s)) \<and>
     0 \<le> num_readings s \<and>
     (num_readings s = 1 \<longrightarrow> reading_names s \<noteq> [])"


section \<open>Auxiliary facts\<close>

subsection \<open>The counter source meets the contract\<close>

lemma in_interval: "lo < hi \<Longrightarrow> lo \<le> lo + x mod (hi - lo) \<and> lo + x mod (hi - lo) < (hi::int)"
proof -
  assume "lo < hi"
  then have pos: "0 < hi - lo" by simp
  have "0 \<le> x mod (hi - lo)" using pos by (rule pos_mod_sign)
  moreover have "x mod (hi - lo) < hi - lo" using pos by (rule pos_mod_bound)
  ultimately show ?thesis by linarith
qed

lemma counter_source_contract: "randint_contract counter_source"
  unfolding randint_contract_def counter_source_def bounds_ok_def
  by (auto simp: in_interval)

subsection \<open>Dictionaries\<close>

lemma map_of_fold_update:
  "map_of (fold (\<lambda>(k, v) d. AList.update k v d) kvs acc) = map_of acc ++ map_of (rev kvs)"
  by (induction kvs arbitrary: acc)
     (auto simp: update_conv' map_add_def fun_eq_iff split: option.splits)

lemma keys_fold_update:
  "fst ` set (fold (\<lambda>(k, v) d. AList.update k v d) kvs acc) = fst ` set acc \<union> fst ` set kvs"
proof (induction kvs arbitrary: acc)
  case Nil
  show ?case by simp
next
  case (Cons kv kvs)
  obtain k v where kv: "kv = (k, v)" by (cases kv)
  show ?case unfolding kv by (simp add: Cons.IH dom_update Un_ac)
qed

lemma distinct_fold_update:
  "distinct (map fst acc) \<Longrightarrow>
   distinct (map fst (fold (\<lambda>(k, v) d. AList.update k v d) kvs acc))"
  by (induction kvs arbitrary: acc) (auto simp: distinct_update)

lemma set_update_subset: "set (AList.update k v al) \<subseteq> insert (k, v) (set al)"
  by (induction al) auto

lemma set_fold_update:
  "set (fold (\<lambda>(k, v) d. AList.update k v d) kvs acc) \<subseteq> set acc \<union> set kvs"
proof (induction kvs arbitrary: acc)
  case Nil
  show ?case by simp
next
  case (Cons kv kvs)
  obtain k v where kv: "kv = (k, v)" by (cases kv)
  have "set (fold (\<lambda>(k, v) d. AList.update k v d) kvs (AList.update k v acc))
          \<subseteq> set (AList.update k v acc) \<union> set kvs"
    by (rule Cons.IH)
  also have "\<dots> \<subseteq> insert (k, v) (set acc) \<union> set kvs"
    using set_update_subset [of k v acc] by blast
  finally show ?case unfolding kv by auto
qed

lemma map_of_dict_comprehension: "map_of (dict_comprehension kvs) = map_of (rev kvs)"
  by (simp add: dict_comprehension_def map_of_fold_update)

lemma keys_dict_comprehension: "fst ` set (dict_comprehension kvs) = fst ` set kvs"
  by (simp add: dict_comprehension_def keys_fold_update)

lemma distinct_dict_comprehension: "distinct (map fst (dict_comprehension kvs))"
  by (simp add: dict_comprehension_def distinct_fold_update)

lemma set_dict_comprehension: "set (dict_comprehension kvs) \<subseteq> set kvs"
  using set_fold_update [of kvs "[]"] by (simp add: dict_comprehension_def)

lemma length_dict_comprehension: "length (dict_comprehension kvs) = card (fst ` set kvs)"
proof -
  have "length (dict_comprehension kvs) = length (map fst (dict_comprehension kvs))" by simp
  also have "\<dots> = card (set (map fst (dict_comprehension kvs)))"
    by (rule distinct_card [symmetric]) (rule distinct_dict_comprehension)
  also have "\<dots> = card (fst ` set kvs)"
    by (simp add: keys_dict_comprehension)
  finally show ?thesis .
qed

lemma map_of_rev_last:
  assumes "i < length kvs" and "kvs ! i = (k, v)"
    and "\<forall>j. i < j \<and> j < length kvs \<longrightarrow> fst (kvs ! j) \<noteq> k"
  shows "map_of (rev kvs) k = Some v"
  using assms
proof (induction kvs rule: rev_induct)
  case Nil
  then show ?case by simp
next
  case (snoc x xs)
  show ?case
  proof (cases "i = length xs")
    case True
    with snoc.prems(2) have "x = (k, v)" by simp
    then show ?thesis by simp
  next
    case False
    with snoc.prems(1) have i: "i < length xs" by simp
    have "fst ((xs @ [x]) ! length xs) \<noteq> k"
      using snoc.prems(3) i by (metis length_append_singleton lessI)
    then have x: "fst x \<noteq> k" by simp
    have at: "xs ! i = (k, v)" using snoc.prems(2) i by (simp add: nth_append)
    have later: "\<forall>j. i < j \<and> j < length xs \<longrightarrow> fst (xs ! j) \<noteq> k"
    proof (intro allI impI)
      fix j assume j: "i < j \<and> j < length xs"
      then have "fst ((xs @ [x]) ! j) \<noteq> k" using snoc.prems(3) by simp
      with j show "fst (xs ! j) \<noteq> k" by (simp add: nth_append)
    qed
    have "map_of (rev xs) k = Some v" using snoc.IH [OF i at later] .
    with x show ?thesis by (cases x) simp
  qed
qed

lemma not_distinct_card: "\<not> distinct xs \<Longrightarrow> card (set xs) < length xs"
  using card_distinct [of xs] card_length [of xs] by linarith

subsection \<open>Draws without elements\<close>

text \<open>An empty draw is answered whatever the bounds are, and leaves the source alone.\<close>

lemma randint_sized_empty: "randint_sized R g d lo hi 0 = Inr ([], g)"
  by (simp add: randint_sized_def)

lemma randint_matrix_empty:
  "0 \<le> rows \<Longrightarrow> randint_matrix R g d lo hi rows 0 = Inr (replicate (nat rows) [], g)"
  by (simp add: randint_matrix_def)

subsection \<open>What a successful call of get_readings returned\<close>

lemma get_readings_single:
  assumes "get_readings R s = (Inr readings, s')" and "num_readings s = 1"
  shows "\<exists>d. np_getattr (dtype s) = Inr d \<and> bounds_ok d (low s) (high s) \<and>
             reading_names s \<noteq> [] \<and>
             readings = [(reading_names s ! 0,
                          fst (draw_scalar R (np_random s) d (low s) (high s)))]"
  using assms
  by (auto simp: get_readings_def randint_def split: sum.splits if_splits list.splits prod.splits)

lemma get_readings_none:
  assumes "get_readings R s = (Inr readings, s')" and "num_readings s = 0"
  shows "readings = []"
  using assms
  by (auto simp: get_readings_def randint_sized_def dict_comprehension_def
           split: sum.splits if_splits prod.splits)

lemma get_readings_multi:
  assumes "get_readings R s = (Inr readings, s')"
    and "num_readings s \<noteq> 1" and "num_readings s \<noteq> 0"
  shows "\<exists>d. np_getattr (dtype s) = Inr d \<and> bounds_ok d (low s) (high s) \<and>
             0 \<le> num_readings s \<and>
             readings = dict_comprehension (zip (reading_names s) (drawn_values R s))"
  using assms
  by (auto simp: get_readings_def randint_sized_def drawn_values_def
           split: sum.splits if_splits prod.splits)


lemma get_readings_in_range:
  assumes contract: "randint_contract R" and ret: "get_readings R s = (Inr readings, s')"
  shows "\<forall>(name, v) \<in> set readings.
           low s \<le> v \<and> v < high s \<and> name \<in> set (reading_names s)"
proof (cases "num_readings s = 1")
  case True
  from get_readings_single [OF ret True] obtain d where
    ok: "bounds_ok d (low s) (high s)" and names: "reading_names s \<noteq> []" and
    rd: "readings = [(reading_names s ! 0, fst (draw_scalar R (np_random s) d (low s) (high s)))]"
    by blast
  from contract ok have
    "low s \<le> fst (draw_scalar R (np_random s) d (low s) (high s)) \<and>
     fst (draw_scalar R (np_random s) d (low s) (high s)) < high s"
    unfolding randint_contract_def by blast
  with names show ?thesis unfolding rd by simp
next
  case False
  show ?thesis
  proof (cases "num_readings s = 0")
    case True
    from get_readings_none [OF ret True] show ?thesis by simp
  next
    case some: False
  from get_readings_multi [OF ret False some] obtain d where
    d: "np_getattr (dtype s) = Inr d" and ok: "bounds_ok d (low s) (high s)" and
    rd: "readings = dict_comprehension (zip (reading_names s) (drawn_values R s))"
    by blast
  from contract ok have rng: "\<forall>v \<in> set (drawn_values R s). low s \<le> v \<and> v < high s"
    unfolding randint_contract_def drawn_values_def d by simp
  show ?thesis
  proof (clarify, intro conjI)
    fix name v assume "(name, v) \<in> set readings"
    then have mem: "(name, v) \<in> set (zip (reading_names s) (drawn_values R s))"
      unfolding rd using set_dict_comprehension by blast
    then have v: "v \<in> set (drawn_values R s)" by (rule set_zip_rightD)
    from v rng show "low s \<le> v" by blast
    from v rng show "v < high s" by blast
    from mem show "name \<in> set (reading_names s)" by (rule set_zip_leftD)
  qed
  qed
qed

section \<open>Properties\<close>

subsection \<open>C1: readings lie within the configured bounds\<close>

text \<open>
  C1. Take any configuration that \<open>validate_config\<close> accepts and the state \<open>s\<close> that
  \<open>reconfigure\<close> leaves. Whenever \<open>get_readings\<close> returns in \<open>s\<close>, every value of the
  returned mapping satisfies \<open>low \<le> value < high\<close> and is stored under one of the
  reading names; and when \<open>num_readings = 1\<close> the mapping is the single entry keyed by
  \<open>reading_names[0]\<close>. The range of a draw is the contract of numpy's \<open>randint\<close>; the
  theorem shows that the method hands it the stored bounds and returns what was drawn.
\<close>

theorem readings_within_bounds:
  assumes "randint_contract R"
    and "validate_config attrs = Inr deps"
    and "s = snd (reconfigure R attrs s0)"
    and "get_readings R s = (Inr readings, s')"
  shows "(\<forall>(name, v) \<in> set readings.
            low s \<le> v \<and> v < high s \<and> name \<in> set (reading_names s)) \<and>
         (num_readings s = 1 \<longrightarrow>
            reading_names s \<noteq> [] \<and> (\<exists>v. readings = [(reading_names s ! 0, v)]))"
proof (intro conjI impI)
  show "\<forall>(name, v) \<in> set readings.
          low s \<le> v \<and> v < high s \<and> name \<in> set (reading_names s)"
    using assms(1,4) by (rule get_readings_in_range)
next
  assume one: "num_readings s = 1"
  from get_readings_single [OF assms(4) one] show "reading_names s \<noteq> []" by blast
  from get_readings_single [OF assms(4) one]
  show "\<exists>v. readings = [(reading_names s ! 0, v)]" by blast
qed

text \<open>
  An instance: \<open>low = 5\<close>, \<open>high = 10\<close> on the counter source at 7 reads
  \<open>{"value": 7}\<close>.
\<close>

lemma five_ten_validated:
  "validate_config [''low'' \<mapsto> NumberValue (Finite 5), ''high'' \<mapsto> NumberValue (Finite 10)]
     = Inr ([], [])"
  by (simp add: validate_config_def check_reading_names_def check_bounds_def check_dtype_def
        trunc_toward_zero_def)

lemma five_ten_reconfigured:
  "snd (reconfigure counter_source
          [''low'' \<mapsto> NumberValue (Finite 5), ''high'' \<mapsto> NumberValue (Finite 10)] (init 7))
     = \<lparr> low = 5, high = 10, num_readings = 1, reading_names = [''value''],
         dtype = ''int32'', seed = None, np_random = 7 \<rparr>"
  by (simp add: reconfigure_def attr_get_def make_number_value_def make_string_value_def
        trunc_toward_zero_def default_names_def init_def)

lemma five_ten_reading:
  "get_readings counter_source
     \<lparr> low = 5, high = 10, num_readings = 1, reading_names = [''value''],
       dtype = ''int32'', seed = None, np_random = 7 \<rparr>
   = (Inr [(''value'', 7)],
      \<lparr> low = 5, high = 10, num_readings = 1, reading_names = [''value''],
        dtype = ''int32'', seed = None, np_random = 8 \<rparr>)"
  by (simp add: get_readings_def np_getattr_def randint_def bounds_ok_def counter_source_def)

theorem readings_within_bounds_witness:
  "randint_contract counter_source \<and>
   validate_config [''low'' \<mapsto> NumberValue (Finite 5), ''high'' \<mapsto> NumberValue (Finite 10)]
     = Inr ([], []) \<and>
   get_readings counter_source
     (snd (reconfigure counter_source
        [''low'' \<mapsto> NumberValue (Finite 5), ''high'' \<mapsto> NumberValue (Finite 10)] (init 7)))
     = (Inr [(''value'', 7)],
        \<lparr> low = 5, high = 10, num_readings = 1, reading_names = [''value''],
          dtype = ''int32'', seed = None, np_random = 8 \<rparr>) \<and>
   low (snd (reconfigure counter_source
        [''low'' \<mapsto> NumberValue (Finite 5), ''high'' \<mapsto> NumberValue (Finite 10)] (init 7))) \<le> 7 \<and>
   7 < high (snd (reconfigure counter_source
        [''low'' \<mapsto> NumberValue (Finite 5), ''high'' \<mapsto> NumberValue (Finite 10)] (init 7))) \<and>
   (\<exists>v. [(''value'', 7::int)] =
      [(reading_names (snd (reconfigure counter_source
          [''low'' \<mapsto> NumberValue (Finite 5), ''high'' \<mapsto> NumberValue (Finite 10)] (init 7))) ! 0,
        v)])"
proof -
  let ?s = "snd (reconfigure counter_source
        [''low'' \<mapsto> NumberValue (Finite 5), ''high'' \<mapsto> NumberValue (Finite 10)] (init 7))"
  have rd: "get_readings counter_source ?s
     = (Inr [(''value'', 7)],
        \<lparr> low = 5, high = 10, num_readings = 1, reading_names = [''value''],
          dtype = ''int32'', seed = None, np_random = 8 \<rparr>)"
    by (simp only: five_ten_reconfigured five_ten_reading)
  have one: "num_readings ?s = 1" by (simp add: five_ten_reconfigured)
  note concl = readings_within_bounds [OF counter_source_contract five_ten_validated refl rd]
  from concl have "low ?s \<le> 7 \<and> 7 < high ?s" by simp
  moreover from concl one have "\<exists>v. [(''value'', 7::int)] = [(reading_names ?s ! 0, v)]"
    by blast
  ultimately show ?thesis using counter_source_contract five_ten_validated rd by blast
qed

subsection \<open>C2: the stored bounds are ordered\<close>

lemma reconfigure_bounds:
  assumes "validate_config attrs = Inr deps"
    and "attrs ''low'' = None \<longleftrightarrow> attrs ''high'' = None"
  shows "low (snd (reconfigure R attrs s)) < high (snd (reconfigure R attrs s))"
  using assms
  by (auto simp: validate_config_def check_bounds_def reconfigure_def attr_get_def
        make_number_value_def trunc_toward_zero_def np_random_seed_def Let_def
        split: sum.splits option.splits if_splits)

text \<open>\<open>new\<close> is \<open>__init__\<close> followed by the first reconfigure call.\<close>

lemma new_is_first_reconfigure: "snd (new R attrs g) = reconfigure_all R [attrs] (init g)"
  by (simp add: new_def reconfigure_all_def)

lemma reconfigure_all_snoc:
  "reconfigure_all R (cfgs @ [attrs]) s = snd (reconfigure R attrs (reconfigure_all R cfgs s))"
  by (simp add: reconfigure_all_def)

text \<open>
  C2, as stated, fails: \<open>validate_config\<close> compares the bounds only when both are
  configured, and \<open>reconfigure\<close> fills a missing bound with its default. The
  configuration \<open>{"low": 200}\<close> is accepted and leaves \<open>low = 200\<close>, \<open>high = 100\<close>.
\<close>

theorem low_alone_breaks_order:
  "validate_config [''low'' \<mapsto> NumberValue (Finite 200)] = Inr ([], []) \<and>
   reconfigure_all counter_source [[''low'' \<mapsto> NumberValue (Finite 200)]] (init 7)
     = \<lparr> low = 200, high = 100, num_readings = 1, reading_names = [''value''],
         dtype = ''int32'', seed = None, np_random = 7 \<rparr> \<and>
   \<not> low (reconfigure_all counter_source [[''low'' \<mapsto> NumberValue (Finite 200)]] (init 7))
     < high (reconfigure_all counter_source [[''low'' \<mapsto> NumberValue (Finite 200)]] (init 7))"
  by (simp add: validate_config_def check_reading_names_def check_bounds_def check_dtype_def
        reconfigure_all_def reconfigure_def attr_get_def make_number_value_def
        make_string_value_def trunc_toward_zero_def default_names_def init_def)

text \<open>
  C2, amended. In every state reached from \<open>__init__\<close> by reconfigure calls whose
  configurations pass \<open>validate_config\<close> and give \<open>low\<close> and \<open>high\<close> together or not
  at all, the stored bounds satisfy \<open>low < high\<close>.
\<close>

theorem bounds_ordered_when_given_together:
  assumes "\<forall>attrs \<in> set cfgs.
             (\<exists>deps. validate_config attrs = Inr deps) \<and>
             (attrs ''low'' = None \<longleftrightarrow> attrs ''high'' = None)"
  shows "low (reconfigure_all R cfgs (init g)) < high (reconfigure_all R cfgs (init g))"
proof (cases cfgs rule: rev_cases)
  case Nil
  then show ?thesis by (simp add: reconfigure_all_def init_def)
next
  case (snoc cfgs' attrs)
  with assms obtain deps where "validate_config attrs = Inr deps"
    and "attrs ''low'' = None \<longleftrightarrow> attrs ''high'' = None" by auto
  then show ?thesis unfolding snoc reconfigure_all_snoc by (rule reconfigure_bounds)
qed

theorem bounds_ordered_when_given_together_witness:
  "validate_config [''low'' \<mapsto> NumberValue (Finite 5), ''high'' \<mapsto> NumberValue (Finite 10)]
     = Inr ([], []) \<and>
   validate_config Map.empty = Inr ([], []) \<and>
   low (reconfigure_all counter_source
          [[''low'' \<mapsto> NumberValue (Finite 5), ''high'' \<mapsto> NumberValue (Finite 10)],
           Map.empty] (init 7))
   < high (reconfigure_all counter_source
          [[''low'' \<mapsto> NumberValue (Finite 5), ''high'' \<mapsto> NumberValue (Finite 10)],
           Map.empty] (init 7))"
proof -
  have v1: "validate_config
              [''low'' \<mapsto> NumberValue (Finite 5), ''high'' \<mapsto> NumberValue (Finite 10)]
            = Inr ([], [])"
    by (rule five_ten_validated)
  have v2: "validate_config Map.empty = Inr ([], [])"
    by (simp add: validate_config_def check_reading_names_def check_bounds_def check_dtype_def)
  have h: "\<forall>attrs \<in> set [[''low'' \<mapsto> NumberValue (Finite 5), ''high'' \<mapsto> NumberValue (Finite 10)],
                   Map.empty].
      (\<exists>deps. validate_config attrs = Inr deps) \<and>
      (attrs ''low'' = None \<longleftrightarrow> attrs ''high'' = None)"
    using v1 v2 by simp
  from v1 v2 bounds_ordered_when_given_together [OF h, of counter_source 7] show ?thesis
    by blast
qed

subsection \<open>C3: as many reading names as channels\<close>

lemma length_default_names: "int (length (default_names n)) = (if n = 1 then 1 else max 0 n)"
  by (simp add: default_names_def)

lemma reconfigure_names:
  assumes "validate_config attrs = Inr deps"
    and "names_follow_count attrs"
    and "int (length (reading_names s)) = num_readings s"
  shows "int (length (reading_names (snd (reconfigure R attrs s))))
           = num_readings (snd (reconfigure R attrs s))"
  using assms
  by (auto simp: validate_config_def check_reading_names_def names_follow_count_def
        reconfigure_def attr_get_def make_number_value_def np_random_seed_def Let_def
        length_default_names
        split: sum.splits option.splits if_splits)

text \<open>
  C3, as stated, fails in two ways. \<open>validate_config\<close> compares the names with the
  count only when both are configured: the names \<open>["a", "b"]\<close> alone are accepted and
  are stored beside the default \<open>num_readings = 1\<close>. And no check keeps the count from
  being negative: \<open>num_readings = -2\<close> alone is accepted and derives the empty list.
\<close>

theorem names_alone_break_length:
  "validate_config [''reading_names'' \<mapsto> ListValue [StringValue ''a'', StringValue ''b'']]
     = Inr ([], []) \<and>
   reconfigure_all counter_source
     [[''reading_names'' \<mapsto> ListValue [StringValue ''a'', StringValue ''b'']]] (init 7)
     = \<lparr> low = 0, high = 100, num_readings = 1, reading_names = [''a'', ''b''],
         dtype = ''int32'', seed = None, np_random = 7 \<rparr> \<and>
   validate_config [''num_readings'' \<mapsto> NumberValue (Finite (- 2))] = Inr ([], []) \<and>
   reconfigure_all counter_source [[''num_readings'' \<mapsto> NumberValue (Finite (- 2))]] (init 7)
     = \<lparr> low = 0, high = 100, num_readings = - 2, reading_names = [],
         dtype = ''int32'', seed = None, np_random = 7 \<rparr>"
  by (simp add: validate_config_def check_reading_names_def check_bounds_def check_dtype_def
        reconfigure_all_def reconfigure_def attr_get_def make_number_value_def
        make_string_value_def trunc_toward_zero_def default_names_def init_def)

text \<open>
  C3, amended. In every state reached from \<open>__init__\<close> by reconfigure calls whose
  configurations pass \<open>validate_config\<close>, give \<open>reading_names\<close> only together with
  \<open>num_readings\<close>, and give no negative \<open>num_readings\<close> without names, the length of
  \<open>reading_names\<close> equals \<open>num_readings\<close>.
\<close>

theorem names_match_count_when_given_together:
  assumes "\<forall>attrs \<in> set cfgs.
             (\<exists>deps. validate_config attrs = Inr deps) \<and> names_follow_count attrs"
  shows "int (length (reading_names (reconfigure_all R cfgs (init g))))
           = num_readings (reconfigure_all R cfgs (init g))"
  using assms
proof (induction cfgs rule: rev_induct)
  case Nil
  show ?case by (simp add: reconfigure_all_def init_def)
next
  case (snoc attrs cfgs)
  from snoc.prems obtain deps where v: "validate_config attrs = Inr deps"
    and n: "names_follow_count attrs" by auto
  from snoc.prems have "\<forall>attrs \<in> set cfgs.
             (\<exists>deps. validate_config attrs = Inr deps) \<and> names_follow_count attrs" by simp
  then have inv: "int (length (reading_names (reconfigure_all R cfgs (init g))))
           = num_readings (reconfigure_all R cfgs (init g))" by (rule snoc.IH)
  show ?case unfolding reconfigure_all_snoc using v n inv by (rule reconfigure_names)
qed

lemma three_abc_validated:
  "validate_config
     [''num_readings'' \<mapsto> NumberValue (Finite 3),
      ''reading_names'' \<mapsto> ListValue [StringValue ''a'', StringValue ''b'', StringValue ''c'']]
   = Inr ([], [])"
  by (simp add: validate_config_def check_reading_names_def check_bounds_def check_dtype_def
        trunc_toward_zero_def)

lemma two_validated:
  "validate_config [''num_readings'' \<mapsto> NumberValue (Finite 2)] = Inr ([], [])"
  by (simp add: validate_config_def check_reading_names_def check_bounds_def check_dtype_def)

theorem names_match_count_when_given_together_witness:
  "validate_config
     [''num_readings'' \<mapsto> NumberValue (Finite 3),
      ''reading_names'' \<mapsto> ListValue [StringValue ''a'', StringValue ''b'', StringValue ''c'']]
   = Inr ([], []) \<and>
   validate_config [''num_readings'' \<mapsto> NumberValue (Finite 2)] = Inr ([], []) \<and>
   names_follow_count
     [''num_readings'' \<mapsto> NumberValue (Finite 3),
      ''reading_names'' \<mapsto> ListValue [StringValue ''a'', StringValue ''b'', StringValue ''c'']] \<and>
   names_follow_count [''num_readings'' \<mapsto> NumberValue (Finite 2)] \<and>
   int (length (reading_names (reconfigure_all counter_source
     [[''num_readings'' \<mapsto> NumberValue (Finite 3),
       ''reading_names'' \<mapsto> ListValue [StringValue ''a'', StringValue ''b'', StringValue ''c'']],
      [''num_readings'' \<mapsto> NumberValue (Finite 2)]] (init 7))))
   = num_readings (reconfigure_all counter_source
     [[''num_readings'' \<mapsto> NumberValue (Finite 3),
       ''reading_names'' \<mapsto> ListValue [StringValue ''a'', StringValue ''b'', StringValue ''c'']],
      [''num_readings'' \<mapsto> NumberValue (Finite 2)]] (init 7))"
proof -
  have n1: "names_follow_count
     [''num_readings'' \<mapsto> NumberValue (Finite 3),
      ''reading_names'' \<mapsto> ListValue [StringValue ''a'', StringValue ''b'', StringValue ''c'']]"
    by (simp add: names_follow_count_def)
  have n2: "names_follow_count [''num_readings'' \<mapsto> NumberValue (Finite 2)]"
    by (simp add: names_follow_count_def attr_get_def trunc_toward_zero_def)
  have h: "\<forall>attrs \<in> set
     [[''num_readings'' \<mapsto> NumberValue (Finite 3),
       ''reading_names'' \<mapsto> ListValue [StringValue ''a'', StringValue ''b'', StringValue ''c'']],
      [''num_readings'' \<mapsto> NumberValue (Finite 2)]].
        (\<exists>deps. validate_config attrs = Inr deps) \<and> names_follow_count attrs"
    using three_abc_validated two_validated n1 n2 by simp
  from three_abc_validated two_validated n1 n2
    names_match_count_when_given_together [OF h, of counter_source 7]
  show ?thesis by blast
qed

subsection \<open>C4: reseeding makes the readings reproducible\<close>

lemma reseed_installs_seed:
  assumes "reseed R command s = (Inr resp, s')"
  shows "\<exists>n. s' = s\<lparr>seed := Some n, np_random := seeded R n\<rparr> \<and>
             (case command ''seed'' of None \<Rightarrow> False | Some v \<Rightarrow> int_of_number v = Inr n)"
  using assms
  by (auto simp: reseed_def np_random_seed_def Let_def
        split: option.splits sum.splits if_splits)

lemma same_configuration_reseeded:
  assumes "same_configuration s1 s2"
  shows "s1\<lparr>seed := x, np_random := g\<rparr> = s2\<lparr>seed := x, np_random := g\<rparr>"
  using assms by (cases s1, cases s2) (simp add: same_configuration_def)

lemma reseed_result_independent:
  assumes "same_configuration s1 s2" and "fst (reseed R command s1) = Inr resp"
  shows "fst (reseed R command s2) = Inr resp \<and>
         snd (reseed R command s2) = snd (reseed R command s1)"
proof -
  obtain s1' where r1: "reseed R command s1 = (Inr resp, s1')"
    using assms(2) by (cases "reseed R command s1") simp
  from reseed_installs_seed [OF r1] obtain n v where
    s1': "s1' = s1\<lparr>seed := Some n, np_random := seeded R n\<rparr>" and
    v: "command ''seed'' = Some v" and n: "int_of_number v = Inr n"
    by (auto split: option.splits)
  from r1 v n have ok: "v \<noteq> PyNone" "is_int_or_float v" "0 \<le> n \<and> n < 2 ^ 32"
    and resp: "resp = [(''status'', PyStr ''reseeded''), (''seed'', PyInt n)]"
    by (auto simp: reseed_def np_random_seed_def Let_def split: sum.splits if_splits)
  from v n ok resp have r2: "reseed R command s2
      = (Inr resp, s2\<lparr>seed := Some n, np_random := seeded R n\<rparr>)"
    by (simp add: reseed_def np_random_seed_def)
  from r1 r2 s1' same_configuration_reseeded [OF assms(1)] show ?thesis by simp
qed

text \<open>
  C4. Two runs start from objects with the same configuration; the state of the random
  source and the stored seed may differ between them. Each run sends the reseed command
  with the same seed value and then calls \<open>get_readings\<close> the same number of times. If
  the reseed command succeeds (the seed is a number that \<open>np.random.seed\<close> accepts), both
  runs give the same response and the same sequence of readings. \<open>np.random.seed\<close> is a
  function of the seed in the model, which is what numpy documents.
\<close>

theorem reseed_reproducible:
  assumes "same_configuration s1 s2"
    and "fst (do_command R [''command'' \<mapsto> PyStr ''reseed'', ''seed'' \<mapsto> sv] s1) = Inr resp"
  shows "reseed_then_read R sv k s1 = reseed_then_read R sv k s2"
proof -
  let ?c = "[''command'' \<mapsto> PyStr ''reseed'', ''seed'' \<mapsto> sv]"
  have dc: "do_command R ?c s = reseed R ?c s" for s :: "'a generator"
    by (simp add: do_command_def)
  from assms(2) have ok: "fst (reseed R ?c s1) = Inr resp" by (simp only: dc)
  from reseed_result_independent [OF assms(1) ok] ok
  have "reseed R ?c s2 = reseed R ?c s1" by (simp add: prod_eq_iff)
  then show ?thesis by (simp only: reseed_then_read_def dc)
qed

theorem reseed_reproducible_witness:
  "same_configuration (init (3::int)) ((init 999)\<lparr>seed := Some 5\<rparr>) \<and>
   fst (do_command counter_source [''command'' \<mapsto> PyStr ''reseed'', ''seed'' \<mapsto> PyInt 42]
          (init 3))
     = Inr [(''status'', PyStr ''reseeded''), (''seed'', PyInt 42)] \<and>
   reseed_then_read counter_source (PyInt 42) 2 (init 3)
     = (Inr [(''status'', PyStr ''reseeded''), (''seed'', PyInt 42)],
        [Inr [(''value'', 42)], Inr [(''value'', 43)]]) \<and>
   reseed_then_read counter_source (PyInt 42) 2 ((init 999)\<lparr>seed := Some 5\<rparr>)
     = (Inr [(''status'', PyStr ''reseeded''), (''seed'', PyInt 42)],
        [Inr [(''value'', 42)], Inr [(''value'', 43)]])"
proof -
  have same: "same_configuration (init (3::int)) ((init 999)\<lparr>seed := Some 5\<rparr>)"
    by (simp add: same_configuration_def init_def)
  have ok: "fst (do_command counter_source
                   [''command'' \<mapsto> PyStr ''reseed'', ''seed'' \<mapsto> PyInt 42] (init 3))
     = Inr [(''status'', PyStr ''reseeded''), (''seed'', PyInt 42)]"
    by (simp add: do_command_def reseed_def np_random_seed_def)
  have run: "reseed_then_read counter_source (PyInt 42) 2 (init 3)
     = (Inr [(''status'', PyStr ''reseeded''), (''seed'', PyInt 42)],
        [Inr [(''value'', 42)], Inr [(''value'', 43)]])"
    by (simp add: reseed_then_read_def do_command_def reseed_def np_random_seed_def
          numeral_2_eq_2 get_readings_def np_getattr_def randint_def bounds_ok_def
          counter_source_def init_def)
  from same ok run reseed_reproducible [OF same ok, of 2] show ?thesis by simp
qed

subsection \<open>C5: generate_batch\<close>

lemma trunc_five_halves: "trunc_toward_zero (5 / 2) = 2"
  by code_simp

lemma positive_not_le_zero:
  assumes "is_int_or_float v" and "int_of_number v = Inr b" and "1 \<le> b"
  shows "\<not> le_zero v"
proof (cases v)
  case (PyFloat x)
  show ?thesis
  proof (cases x)
    case (Finite q)
    with PyFloat assms(2,3) have "1 \<le> trunc_toward_zero q" by simp
    then have "0 < q"
      by (cases "0 \<le> q") (auto simp: trunc_toward_zero_def order_less_le)
    with PyFloat Finite show ?thesis by simp
  qed (use PyFloat assms in auto)
qed (use assms in \<open>auto split: if_splits\<close>)

lemma length_row:
  assumes "length flat = r * c" and "i < r"
  shows "length (take c (drop (i * c) flat)) = c"
proof -
  from assms(2) have "(i + 1) * c \<le> r * c" by (intro mult_le_mono1) simp
  then have "c \<le> r * c - i * c" by simp
  with assms(1) show ?thesis by simp
qed

lemma generate_batch_rejects:
  assumes "command ''size'' = Some v" and "\<not> is_int_or_float v \<or> le_zero v"
  shows "generate_batch R command s = (Inl BatchSizeNotPositive, s)"
  using assms by (auto simp: generate_batch_def)

lemma generate_batch_single:
  assumes contract: "randint_contract R" and ok: "drawable s" and one: "num_readings s = 1"
    and size: "(case command ''size'' of None \<Rightarrow> PyInt 10 | Some v \<Rightarrow> v) = bs"
    and num: "is_int_or_float bs" and pos: "\<not> le_zero bs" and b: "int_of_number bs = Inr b"
    and b1: "1 \<le> b"
  shows "\<exists>vs g'. int (length vs) = b \<and>
           generate_batch R command s =
             (Inr [(''batch'', PyList (map PyInt vs)),
                   (''batch_size'', PyInt b),
                   (''reading_name'', PyStr (reading_names s ! 0))],
              s\<lparr>np_random := g'\<rparr>)"
proof -
  from ok obtain d where d: "np_getattr (dtype s) = Inr d"
    and bounds: "bounds_ok d (low s) (high s)"
    by (auto simp: drawable_def split: sum.splits)
  from ok one obtain name rest where names: "reading_names s = name # rest"
    by (cases "reading_names s") (auto simp: drawable_def)
  obtain vs g' where draw: "draw_array R (np_random s) d (low s) (high s) (nat b) = (vs, g')"
    by (cases "draw_array R (np_random s) d (low s) (high s) (nat b)")
  from contract bounds have "length (fst (draw_array R (np_random s) d (low s) (high s) (nat b)))
      = nat b"
    unfolding randint_contract_def by blast
  with draw b1 have len: "int (length vs) = b" by simp
  have "generate_batch R command s =
             (Inr [(''batch'', PyList (map PyInt vs)),
                   (''batch_size'', PyInt b),
                   (''reading_name'', PyStr (reading_names s ! 0))],
              s\<lparr>np_random := g'\<rparr>)"
    using size num pos b b1 d bounds one names draw
    by (simp add: generate_batch_def randint_sized_def)
  with len show ?thesis by blast
qed

lemma generate_batch_multi:
  assumes contract: "randint_contract R" and ok: "drawable s" and many: "num_readings s \<noteq> 1"
    and size: "(case command ''size'' of None \<Rightarrow> PyInt 10 | Some v \<Rightarrow> v) = bs"
    and num: "is_int_or_float bs" and pos: "\<not> le_zero bs" and b: "int_of_number bs = Inr b"
    and b1: "1 \<le> b"
  shows "\<exists>rows g'. int (length rows) = b \<and>
           (\<forall>row \<in> set rows. int (length row) = num_readings s) \<and>
           generate_batch R command s =
             (Inr [(''batch'',
                     PyList (map (\<lambda>row. PyDict (map (\<lambda>(name, val). (name, PyInt val))
                               (dict_comprehension (zip (reading_names s) row)))) rows)),
                   (''batch_size'', PyInt b),
                   (''reading_names'', PyList (map PyStr (reading_names s)))],
              s\<lparr>np_random := g'\<rparr>)"
proof -
  let ?c = "nat (num_readings s)"
  from ok obtain d where d: "np_getattr (dtype s) = Inr d"
    and bounds: "bounds_ok d (low s) (high s)" and n0: "0 \<le> num_readings s"
    by (auto simp: drawable_def split: sum.splits)
  show ?thesis
  proof (cases "num_readings s = 0")
    case True
    let ?rows = "replicate (nat b) ([]::int list)"
    have len: "int (length ?rows) = b" using b1 by simp
    have each: "\<forall>row \<in> set ?rows. int (length row) = num_readings s"
      using True by simp
    have "generate_batch R command s =
             (Inr [(''batch'',
                     PyList (map (\<lambda>row. PyDict (map (\<lambda>(name, val). (name, PyInt val))
                               (dict_comprehension (zip (reading_names s) row)))) ?rows)),
                   (''batch_size'', PyInt b),
                   (''reading_names'', PyList (map PyStr (reading_names s)))],
              s\<lparr>np_random := np_random s\<rparr>)"
      using size num pos b b1 d True
      by (simp add: generate_batch_def randint_matrix_def)
    with len each show ?thesis by blast
  next
    case False
    with n0 b1 have prod: "b * num_readings s \<noteq> 0" by simp
    obtain flat g' where
      draw: "draw_array R (np_random s) d (low s) (high s) (nat b * ?c) = (flat, g')"
      by (cases "draw_array R (np_random s) d (low s) (high s) (nat b * ?c)")
    let ?rows = "map (\<lambda>i. take ?c (drop (i * ?c) flat)) [0..<nat b]"
    from contract bounds
    have "length (fst (draw_array R (np_random s) d (low s) (high s) (nat b * ?c))) = nat b * ?c"
      unfolding randint_contract_def by blast
    with draw have flat: "length flat = nat b * ?c" by simp
    have len: "int (length ?rows) = b" using b1 by simp
    have each: "\<forall>row \<in> set ?rows. int (length row) = num_readings s"
    proof
      fix row assume "row \<in> set ?rows"
      then obtain i where i: "i < nat b" and row: "row = take ?c (drop (i * ?c) flat)" by auto
      from length_row [OF flat i] row n0 show "int (length row) = num_readings s" by simp
    qed
    have "generate_batch R command s =
             (Inr [(''batch'',
                     PyList (map (\<lambda>row. PyDict (map (\<lambda>(name, val). (name, PyInt val))
                               (dict_comprehension (zip (reading_names s) row)))) ?rows)),
                   (''batch_size'', PyInt b),
                   (''reading_names'', PyList (map PyStr (reading_names s)))],
              s\<lparr>np_random := g'\<rparr>)"
      using size num pos b b1 d bounds many n0 prod draw
      by (simp add: generate_batch_def randint_matrix_def)
    with len each show ?thesis by blast
  qed
qed

text \<open>
  C5, as stated, fails in two ways. The size is truncated by \<open>int(batch_size)\<close> after
  the check, so a size of 2.5 returns two rows and reports \<open>batch_size = 2\<close>. And the
  rows are only returned when numpy accepts the draw: after the accepted configuration
  \<open>{"low": 200}\<close> the bounds are 200 and 100, and a batch of size 3 raises the
  ValueError of \<open>randint\<close>.
\<close>

theorem batch_size_truncated:
  "fst (do_command counter_source
          [''command'' \<mapsto> PyStr ''generate_batch'', ''size'' \<mapsto> PyFloat (Finite (5 / 2))]
          (init 7))
     = Inr [(''batch'', PyList [PyInt 7, PyInt 8]),
            (''batch_size'', PyInt 2),
            (''reading_name'', PyStr ''value'')] \<and>
   validate_config [''low'' \<mapsto> NumberValue (Finite 200)] = Inr ([], []) \<and>
   fst (do_command counter_source
          [''command'' \<mapsto> PyStr ''generate_batch'', ''size'' \<mapsto> PyInt 3]
          (snd (reconfigure counter_source [''low'' \<mapsto> NumberValue (Finite 200)] (init 7))))
     = Inl RandintRejected"
proof (intro conjI)
  show "fst (do_command counter_source
          [''command'' \<mapsto> PyStr ''generate_batch'', ''size'' \<mapsto> PyFloat (Finite (5 / 2))]
          (init 7))
     = Inr [(''batch'', PyList [PyInt 7, PyInt 8]),
            (''batch_size'', PyInt 2),
            (''reading_name'', PyStr ''value'')]"
    by (simp add: do_command_def generate_batch_def trunc_five_halves np_getattr_def
          randint_sized_def bounds_ok_def counter_source_def init_def upt_rec)
  show "validate_config [''low'' \<mapsto> NumberValue (Finite 200)] = Inr ([], [])"
    by (simp add: validate_config_def check_reading_names_def check_bounds_def check_dtype_def)
  show "fst (do_command counter_source
          [''command'' \<mapsto> PyStr ''generate_batch'', ''size'' \<mapsto> PyInt 3]
          (snd (reconfigure counter_source [''low'' \<mapsto> NumberValue (Finite 200)] (init 7))))
     = Inl RandintRejected"
    by (simp add: do_command_def generate_batch_def reconfigure_def attr_get_def
          make_number_value_def make_string_value_def trunc_toward_zero_def default_names_def
          np_getattr_def randint_sized_def bounds_ok_def init_def)
qed

text \<open>
  C5, amended. A size that is no int, float or bool, or that is \<open>\<le> 0\<close>, raises
  ValueError and leaves the generator as it was. In a state in which numpy accepts the
  draw, a missing size counts as 10, and a numeric size whose integer part \<open>b =
  int(size)\<close> is at least 1 returns exactly \<open>b\<close> rows (\<open>b\<close> is the size itself when the
  size is whole): for \<open>num_readings = 1\<close> a list of \<open>b\<close> integers with \<open>batch_size = b\<close>
  and the single reading name, otherwise a list of \<open>b\<close> mappings from reading names
  to integers, each built from \<open>num_readings\<close> drawn values, with \<open>batch_size = b\<close> and
  the list of reading names.
\<close>

theorem generate_batch_rows:
  assumes "command ''command'' = Some (PyStr ''generate_batch'')"
  shows
    "(\<forall>v. command ''size'' = Some v \<and> (\<not> is_int_or_float v \<or> le_zero v) \<longrightarrow>
        do_command R command s = (Inl BatchSizeNotPositive, s) \<and>
        exc_class BatchSizeNotPositive = ValueError) \<and>
     (randint_contract R \<and> drawable s \<and>
      (command ''size'' = None \<and> b = 10 \<or>
       (\<exists>v. command ''size'' = Some v \<and> is_int_or_float v \<and>
            int_of_number v = Inr b \<and> 1 \<le> b)) \<longrightarrow>
        (if num_readings s = 1 then
           \<exists>vs g'. int (length vs) = b \<and>
             do_command R command s =
               (Inr [(''batch'', PyList (map PyInt vs)),
                     (''batch_size'', PyInt b),
                     (''reading_name'', PyStr (reading_names s ! 0))],
                s\<lparr>np_random := g'\<rparr>)
         else
           \<exists>rows g'. int (length rows) = b \<and>
             (\<forall>row \<in> set rows. int (length row) = num_readings s) \<and>
             do_command R command s =
               (Inr [(''batch'',
                       PyList (map (\<lambda>row. PyDict (map (\<lambda>(name, val). (name, PyInt val))
                                 (dict_comprehension (zip (reading_names s) row)))) rows)),
                     (''batch_size'', PyInt b),
                     (''reading_names'', PyList (map PyStr (reading_names s)))],
                s\<lparr>np_random := g'\<rparr>)))"
proof (intro conjI allI impI)
  from assms have dc: "do_command R command s = generate_batch R command s"
    by (simp add: do_command_def)
  {
    fix v assume "command ''size'' = Some v \<and> (\<not> is_int_or_float v \<or> le_zero v)"
    then show "do_command R command s = (Inl BatchSizeNotPositive, s)"
      unfolding dc using generate_batch_rejects by blast
    show "exc_class BatchSizeNotPositive = ValueError" by simp
  }
  assume h: "randint_contract R \<and> drawable s \<and>
      (command ''size'' = None \<and> b = 10 \<or>
       (\<exists>v. command ''size'' = Some v \<and> is_int_or_float v \<and>
            int_of_number v = Inr b \<and> 1 \<le> b))"
  then have contract: "randint_contract R" and ok: "drawable s" by simp_all
  from h obtain bs where
    size: "(case command ''size'' of None \<Rightarrow> PyInt 10 | Some v \<Rightarrow> v) = bs" and
    num: "is_int_or_float bs" and b: "int_of_number bs = Inr b" and b1: "1 \<le> b"
    by auto
  from positive_not_le_zero [OF num b b1] have pos: "\<not> le_zero bs" .
  show "if num_readings s = 1 then
           \<exists>vs g'. int (length vs) = b \<and>
             do_command R command s =
               (Inr [(''batch'', PyList (map PyInt vs)),
                     (''batch_size'', PyInt b),
                     (''reading_name'', PyStr (reading_names s ! 0))],
                s\<lparr>np_random := g'\<rparr>)
         else
           \<exists>rows g'. int (length rows) = b \<and>
             (\<forall>row \<in> set rows. int (length row) = num_readings s) \<and>
             do_command R command s =
               (Inr [(''batch'',
                       PyList (map (\<lambda>row. PyDict (map (\<lambda>(name, val). (name, PyInt val))
                                 (dict_comprehension (zip (reading_names s) row)))) rows)),
                     (''batch_size'', PyInt b),
                     (''reading_names'', PyList (map PyStr (reading_names s)))],
                s\<lparr>np_random := g'\<rparr>)"
  proof (cases "num_readings s = 1")
    case True
    from generate_batch_single [where command = command, OF contract ok True size num pos b b1] True
    show ?thesis unfolding dc by simp
  next
    case False
    from generate_batch_multi [where command = command, OF contract ok False size num pos b b1] False
    show ?thesis unfolding dc by simp
  qed
qed

lemma init_drawable: "drawable (init g)"
  by (simp add: drawable_def init_def np_getattr_def bounds_ok_def)

theorem generate_batch_rows_witness:
  "randint_contract counter_source \<and> drawable (init (7::int)) \<and>
   do_command counter_source
     [''command'' \<mapsto> PyStr ''generate_batch'', ''size'' \<mapsto> PyInt 0] (init 7)
     = (Inl BatchSizeNotPositive, init 7) \<and>
   do_command counter_source
     [''command'' \<mapsto> PyStr ''generate_batch'', ''size'' \<mapsto> PyStr ''3''] (init 7)
     = (Inl BatchSizeNotPositive, init 7) \<and>
   (\<exists>vs g'. int (length vs) = 2 \<and>
      do_command counter_source
        [''command'' \<mapsto> PyStr ''generate_batch'', ''size'' \<mapsto> PyFloat (Finite 2)] (init 7)
      = (Inr [(''batch'', PyList (map PyInt vs)),
              (''batch_size'', PyInt 2),
              (''reading_name'', PyStr (reading_names (init (7::int)) ! 0))],
         (init 7)\<lparr>np_random := g'\<rparr>)) \<and>
   (\<exists>vs g'. int (length vs) = 10 \<and>
      do_command counter_source [''command'' \<mapsto> PyStr ''generate_batch''] (init 7)
      = (Inr [(''batch'', PyList (map PyInt vs)),
              (''batch_size'', PyInt 10),
              (''reading_name'', PyStr (reading_names (init (7::int)) ! 0))],
         (init 7)\<lparr>np_random := g'\<rparr>))"
proof -
  let ?zero = "[''command'' \<mapsto> PyStr ''generate_batch'', ''size'' \<mapsto> PyInt 0]"
  let ?text = "[''command'' \<mapsto> PyStr ''generate_batch'', ''size'' \<mapsto> PyStr ''3'']"
  let ?two = "[''command'' \<mapsto> PyStr ''generate_batch'', ''size'' \<mapsto> PyFloat (Finite 2)]"
  let ?none = "[''command'' \<mapsto> PyStr ''generate_batch'']"
  have one: "num_readings (init (7::int)) = 1" by (simp add: init_def)
  have c0: "?zero ''command'' = Some (PyStr ''generate_batch'')" by simp
  have c1: "?text ''command'' = Some (PyStr ''generate_batch'')" by simp
  have c2: "?two ''command'' = Some (PyStr ''generate_batch'')" by simp
  have c3: "?none ''command'' = Some (PyStr ''generate_batch'')" by simp
  note t0 = generate_batch_rows
      [where command = ?zero and R = counter_source and s = "init 7" and b = 0, OF c0]
  note t1 = generate_batch_rows
      [where command = ?text and R = counter_source and s = "init 7" and b = 0, OF c1]
  note t2 = generate_batch_rows
      [where command = ?two and R = counter_source and s = "init 7" and b = 2, OF c2]
  note t3 = generate_batch_rows
      [where command = ?none and R = counter_source and s = "init 7" and b = 10, OF c3]
  have r0: "do_command counter_source ?zero (init 7) = (Inl BatchSizeNotPositive, init 7)"
    using t0 [THEN conjunct1, rule_format, of "PyInt 0"] by simp
  have r1: "do_command counter_source ?text (init 7) = (Inl BatchSizeNotPositive, init 7)"
    using t1 [THEN conjunct1, rule_format, of "PyStr ''3''"] by simp
  have h2: "randint_contract counter_source \<and> drawable (init (7::int)) \<and>
      (?two ''size'' = None \<and> (2::int) = 10 \<or>
       (\<exists>v. ?two ''size'' = Some v \<and> is_int_or_float v \<and>
            int_of_number v = Inr 2 \<and> (1::int) \<le> 2))"
    using counter_source_contract init_drawable by (simp add: trunc_toward_zero_def)
  have h3: "randint_contract counter_source \<and> drawable (init (7::int)) \<and>
      (?none ''size'' = None \<and> (10::int) = 10 \<or>
       (\<exists>v. ?none ''size'' = Some v \<and> is_int_or_float v \<and>
            int_of_number v = Inr 10 \<and> (1::int) \<le> 10))"
    using counter_source_contract init_drawable by simp
  have r2: "\<exists>vs g'. int (length vs) = 2 \<and>
      do_command counter_source ?two (init 7)
      = (Inr [(''batch'', PyList (map PyInt vs)),
              (''batch_size'', PyInt 2),
              (''reading_name'', PyStr (reading_names (init (7::int)) ! 0))],
         (init 7)\<lparr>np_random := g'\<rparr>)"
    using t2 [THEN conjunct2, rule_format, OF h2] one by (simp only: if_True)
  have r3: "\<exists>vs g'. int (length vs) = 10 \<and>
      do_command counter_source ?none (init 7)
      = (Inr [(''batch'', PyList (map PyInt vs)),
              (''batch_size'', PyInt 10),
              (''reading_name'', PyStr (reading_names (init (7::int)) ! 0))],
         (init 7)\<lparr>np_random := g'\<rparr>)"
    using t3 [THEN conjunct2, rule_format, OF h3] one by (simp only: if_True)
  show ?thesis
    by (rule conjI [OF counter_source_contract
          conjI [OF init_drawable conjI [OF r0 conjI [OF r1 conjI [OF r2 r3]]]]])
qed

subsection \<open>C6: a configuration without seed leaves the random source alone\<close>

lemma reconfigure_no_seed:
  assumes "attrs ''seed'' = None"
  shows "np_random (snd (reconfigure R attrs s)) = np_random s"
    and "fst (reconfigure R attrs s) = None \<Longrightarrow> seed (snd (reconfigure R attrs s)) = None"
  using assms
  by (auto simp: reconfigure_def Let_def split: sum.splits)

lemma reconfigure_with_seed:
  assumes "attrs ''seed'' = Some sv" and "fst (reconfigure R attrs s) = None"
  shows "\<exists>n. int_of_float (number_value sv) = Inr n \<and>
             seed (snd (reconfigure R attrs s)) = Some n \<and>
             np_random (snd (reconfigure R attrs s)) = seeded R n"
  using assms
  by (auto simp: reconfigure_def np_random_seed_def Let_def split: sum.splits if_splits)

lemma reseed_command_seeds:
  assumes "command ''command'' = Some (PyStr ''reseed'')"
    and "fst (do_command R command s) = Inr resp"
  shows "\<exists>n. seed (snd (do_command R command s)) = Some n \<and>
             np_random (snd (do_command R command s)) = seeded R n"
proof -
  from assms(1) have dc: "do_command R command s = reseed R command s"
    by (simp add: do_command_def)
  obtain s' where r: "reseed R command s = (Inr resp, s')"
    using assms(2) unfolding dc by (cases "reseed R command s") simp
  from reseed_installs_seed [OF r] show ?thesis unfolding dc r by auto
qed

text \<open>
  C6. A reconfigure call whose configuration has no \<open>seed\<close> leaves the state of the
  random source as it was, and when the call returns the stored seed is \<open>None\<close>. The
  random source is set anew by a reconfigure call that returns on a configuration with
  a \<open>seed\<close>, and by a reseed command that succeeds; both store the seed they installed.
\<close>

theorem seed_absent_keeps_random_source:
  "(attrs ''seed'' = None \<longrightarrow>
      np_random (snd (reconfigure R attrs s)) = np_random s \<and>
      (fst (reconfigure R attrs s) = None \<longrightarrow> seed (snd (reconfigure R attrs s)) = None)) \<and>
   (\<forall>sv. attrs ''seed'' = Some sv \<and> fst (reconfigure R attrs s) = None \<longrightarrow>
      (\<exists>n. int_of_float (number_value sv) = Inr n \<and>
           seed (snd (reconfigure R attrs s)) = Some n \<and>
           np_random (snd (reconfigure R attrs s)) = seeded R n)) \<and>
   (\<forall>resp. command ''command'' = Some (PyStr ''reseed'') \<and>
           fst (do_command R command s) = Inr resp \<longrightarrow>
      (\<exists>n. seed (snd (do_command R command s)) = Some n \<and>
           np_random (snd (do_command R command s)) = seeded R n))"
  using reconfigure_no_seed [of attrs R s] reconfigure_with_seed [of attrs _ R s]
    reseed_command_seeds [of command R s]
  by blast

theorem seed_absent_keeps_random_source_witness:
  "[''low'' \<mapsto> NumberValue (Finite 5)] ''seed'' = None \<and>
   fst (reconfigure counter_source [''low'' \<mapsto> NumberValue (Finite 5)]
          ((init 7)\<lparr>seed := Some 3\<rparr>)) = None \<and>
   np_random (snd (reconfigure counter_source [''low'' \<mapsto> NumberValue (Finite 5)]
          ((init 7)\<lparr>seed := Some 3\<rparr>))) = 7 \<and>
   seed (snd (reconfigure counter_source [''low'' \<mapsto> NumberValue (Finite 5)]
          ((init 7)\<lparr>seed := Some 3\<rparr>))) = None"
proof -
  let ?attrs = "[''low'' \<mapsto> NumberValue (Finite 5)]"
  let ?s = "(init (7::int))\<lparr>seed := Some 3\<rparr>"
  have absent: "?attrs ''seed'' = None" by simp
  have returns: "fst (reconfigure counter_source ?attrs ?s) = None"
    by (simp add: reconfigure_def attr_get_def make_number_value_def trunc_toward_zero_def)
  have "np_random ?s = 7" by (simp add: init_def)
  with absent returns
    seed_absent_keeps_random_source [of ?attrs counter_source ?s Map.empty]
  show ?thesis by simp
qed

subsection \<open>C7: the derived reading names\<close>

lemma reconfigure_derives_names:
  assumes "attrs ''reading_names'' = None" and "fst (reconfigure R attrs s) = None"
  shows "int_of_float (number_value (attr_get attrs ''num_readings'' (make_number_value 1)))
           = Inr (num_readings (snd (reconfigure R attrs s)))"
    and "reading_names (snd (reconfigure R attrs s))
           = default_names (num_readings (snd (reconfigure R attrs s)))"
  using assms
  by (auto simp: reconfigure_def np_random_seed_def Let_def
        split: sum.splits option.splits if_splits)

lemma default_names_three: "default_names 3 = [''value_1'', ''value_2'', ''value_3'']"
  by code_simp

text \<open>
  C7. Take a reconfigure call that returns on a configuration without
  \<open>reading_names\<close>. The stored \<open>num_readings\<close> is the configured one converted by
  \<open>int\<close>: 1 when the configuration has none, and the number truncated toward zero when
  it has one. If that count is 1 the stored names are \<open>["value"]\<close>, and if it is
  \<open>N > 1\<close> they are \<open>"value_"\<close> followed by the decimal numbers \<open>1, \<dots>, N\<close> in order;
  for \<open>num_readings = 3\<close> that is \<open>["value_1", "value_2", "value_3"]\<close>.
\<close>

theorem names_derived_from_count:
  assumes "attrs ''reading_names'' = None"
    and "fst (reconfigure R attrs s) = None"
    and "s' = snd (reconfigure R attrs s)"
  shows "int_of_float (number_value (attr_get attrs ''num_readings'' (make_number_value 1)))
           = Inr (num_readings s') \<and>
         (attrs ''num_readings'' = None \<longrightarrow> num_readings s' = 1) \<and>
         (\<forall>q. attrs ''num_readings'' = Some (NumberValue (Finite q)) \<longrightarrow>
              num_readings s' = trunc_toward_zero q) \<and>
         (num_readings s' = 1 \<longrightarrow> reading_names s' = [''value'']) \<and>
         (1 < num_readings s' \<longrightarrow>
            reading_names s' =
              map (\<lambda>i. ''value_'' @ str_nat (i + 1)) [0..<nat (num_readings s')]) \<and>
         (num_readings s' = 3 \<longrightarrow> reading_names s' = [''value_1'', ''value_2'', ''value_3''])"
proof -
  have count: "int_of_float (number_value (attr_get attrs ''num_readings'' (make_number_value 1)))
           = Inr (num_readings s')"
    unfolding assms(3) using assms(1,2) by (rule reconfigure_derives_names(1))
  have names: "reading_names s' = default_names (num_readings s')"
    unfolding assms(3) using assms(1,2) by (rule reconfigure_derives_names(2))
  show ?thesis
  proof (intro conjI impI allI)
    show "int_of_float (number_value (attr_get attrs ''num_readings'' (make_number_value 1)))
           = Inr (num_readings s')" by (rule count)
  next
    assume "attrs ''num_readings'' = None"
    with count show "num_readings s' = 1"
      by (simp add: attr_get_def make_number_value_def trunc_toward_zero_def)
  next
    fix q assume "attrs ''num_readings'' = Some (NumberValue (Finite q))"
    with count show "num_readings s' = trunc_toward_zero q"
      by (simp add: attr_get_def)
  next
    assume "num_readings s' = 1"
    with names show "reading_names s' = [''value'']" by (simp add: default_names_def)
  next
    assume "1 < num_readings s'"
    with names show "reading_names s' =
        map (\<lambda>i. ''value_'' @ str_nat (i + 1)) [0..<nat (num_readings s')]"
      by (simp add: default_names_def)
  next
    assume "num_readings s' = 3"
    with names show "reading_names s' = [''value_1'', ''value_2'', ''value_3'']"
      by (simp only: default_names_three)
  qed
qed

text \<open>
  Two instances. On the fresh object, \<open>{"num_readings": 3}\<close> stores the count 3 and the
  names \<open>value_1, value_2, value_3\<close>. On an object that holds three other names,
  \<open>{"num_readings": 1}\<close> stores the count 1 and the name \<open>value\<close>.
\<close>

lemma three_reconfigured:
  "reconfigure counter_source [''num_readings'' \<mapsto> NumberValue (Finite 3)] (init 7)
     = (None, \<lparr> low = 0, high = 100, num_readings = 3,
                reading_names = [''value_1'', ''value_2'', ''value_3''],
                dtype = ''int32'', seed = None, np_random = 7 \<rparr>)"
  by (simp add: reconfigure_def attr_get_def make_number_value_def make_string_value_def
        trunc_toward_zero_def default_names_three init_def)

lemma one_reconfigured_returns:
  "fst (reconfigure counter_source [''num_readings'' \<mapsto> NumberValue (Finite 1)]
          ((init 7)\<lparr>num_readings := 3, reading_names := [''a'', ''b'', ''c'']\<rparr>)) = None"
  by (simp add: reconfigure_def attr_get_def make_number_value_def trunc_toward_zero_def)

theorem names_derived_from_count_witness:
  "[''num_readings'' \<mapsto> NumberValue (Finite 3)] ''reading_names'' = None \<and>
   fst (reconfigure counter_source [''num_readings'' \<mapsto> NumberValue (Finite 3)] (init 7))
     = None \<and>
   num_readings
     (snd (reconfigure counter_source [''num_readings'' \<mapsto> NumberValue (Finite 3)] (init 7)))
     = 3 \<and>
   reading_names
     (snd (reconfigure counter_source [''num_readings'' \<mapsto> NumberValue (Finite 3)] (init 7)))
     = [''value_1'', ''value_2'', ''value_3''] \<and>
   fst (reconfigure counter_source [''num_readings'' \<mapsto> NumberValue (Finite 1)]
          ((init 7)\<lparr>num_readings := 3, reading_names := [''a'', ''b'', ''c'']\<rparr>)) = None \<and>
   num_readings
     (snd (reconfigure counter_source [''num_readings'' \<mapsto> NumberValue (Finite 1)]
          ((init 7)\<lparr>num_readings := 3, reading_names := [''a'', ''b'', ''c'']\<rparr>)))
     = 1 \<and>
   reading_names
     (snd (reconfigure counter_source [''num_readings'' \<mapsto> NumberValue (Finite 1)]
          ((init 7)\<lparr>num_readings := 3, reading_names := [''a'', ''b'', ''c'']\<rparr>)))
     = [''value'']"
proof -
  let ?three = "[''num_readings'' \<mapsto> NumberValue (Finite 3)]"
  let ?one = "[''num_readings'' \<mapsto> NumberValue (Finite 1)]"
  let ?s = "(init (7::int))\<lparr>num_readings := 3, reading_names := [''a'', ''b'', ''c'']\<rparr>"
  have absent3: "?three ''reading_names'' = None" by simp
  have absent1: "?one ''reading_names'' = None" by simp
  have given3: "?three ''num_readings'' = Some (NumberValue (Finite 3))" by simp
  have given1: "?one ''num_readings'' = Some (NumberValue (Finite 1))" by simp
  have returns3: "fst (reconfigure counter_source ?three (init 7)) = None"
    by (simp only: three_reconfigured fst_conv)
  note t3 = names_derived_from_count
      [where attrs = ?three and R = counter_source and s = "init 7", OF absent3 returns3 refl]
  note t1 = names_derived_from_count
      [where attrs = ?one and R = counter_source and s = ?s,
       OF absent1 one_reconfigured_returns refl]
  have n3: "num_readings (snd (reconfigure counter_source ?three (init 7))) = 3"
    using t3 [THEN conjunct2, THEN conjunct2, THEN conjunct1] given3
    by (simp add: trunc_toward_zero_def)
  have names3: "reading_names (snd (reconfigure counter_source ?three (init 7)))
      = [''value_1'', ''value_2'', ''value_3'']"
    using t3 n3 by blast
  have n1: "num_readings (snd (reconfigure counter_source ?one ?s)) = 1"
    using t1 [THEN conjunct2, THEN conjunct2, THEN conjunct1] given1
    by (simp add: trunc_toward_zero_def)
  have names1: "reading_names (snd (reconfigure counter_source ?one ?s)) = [''value'']"
    using t1 n1 by blast
  show ?thesis
    by (rule conjI [OF absent3 conjI [OF returns3 conjI [OF n3 conjI [OF names3
          conjI [OF one_reconfigured_returns conjI [OF n1 names1]]]]]])
qed

subsection \<open>C8: commands outside the command set\<close>

text \<open>
  C8, as stated, fails for the empty name. It lies outside the set of the three
  commands, yet the test \<open>if not cmd\<close> in front of the dispatch answers it with the
  ValueError of a missing command, not with NotImplementedError.
\<close>

theorem empty_command_is_not_unsupported:
  "PyStr '''' \<noteq> PyStr ''get_config'' \<and> PyStr '''' \<noteq> PyStr ''reseed'' \<and>
   PyStr '''' \<noteq> PyStr ''generate_batch'' \<and>
   do_command counter_source [''command'' \<mapsto> PyStr ''''] (init 7)
     = (Inl MissingCommand, init 7) \<and>
   exc_class MissingCommand = ValueError"
  by (simp add: do_command_def)

text \<open>
  C8, amended. For every non-empty command name outside the set \<open>get_config\<close>,
  \<open>reseed\<close>, \<open>generate_batch\<close> (and for every other command value that counts as true),
  whatever the other parameters, \<open>do_command\<close> raises NotImplementedError and leaves the
  generator as it was.
\<close>

theorem unknown_command_not_implemented:
  assumes "command ''command'' = Some cmd"
    and "truthy cmd"
    and "cmd \<noteq> PyStr ''get_config''"
    and "cmd \<noteq> PyStr ''reseed''"
    and "cmd \<noteq> PyStr ''generate_batch''"
  shows "do_command R command s = (Inl (CommandNotImplemented cmd), s) \<and>
         exc_class (CommandNotImplemented cmd) = NotImplementedError"
  using assms by (simp add: do_command_def)

theorem unknown_command_not_implemented_witness:
  "truthy (PyStr ''shutdown'') \<and>
   do_command counter_source [''command'' \<mapsto> PyStr ''shutdown'', ''size'' \<mapsto> PyInt 3] (init 7)
     = (Inl (CommandNotImplemented (PyStr ''shutdown'')), init 7) \<and>
   exc_class (CommandNotImplemented (PyStr ''shutdown'')) = NotImplementedError"
proof -
  have c: "[''command'' \<mapsto> PyStr ''shutdown'', ''size'' \<mapsto> PyInt 3] ''command''
             = Some (PyStr ''shutdown'')" by simp
  have t: "truthy (PyStr ''shutdown'')" by simp
  have n1: "PyStr ''shutdown'' \<noteq> PyStr ''get_config''" by simp
  have n2: "PyStr ''shutdown'' \<noteq> PyStr ''reseed''" by simp
  have n3: "PyStr ''shutdown'' \<noteq> PyStr ''generate_batch''" by simp
  from t unknown_command_not_implemented
      [where command = "[''command'' \<mapsto> PyStr ''shutdown'', ''size'' \<mapsto> PyInt 3]"
         and cmd = "PyStr ''shutdown''" and R = counter_source and s = "init 7",
       OF c t n1 n2 n3]
  show ?thesis by blast
qed

subsection \<open>C9: duplicate reading names\<close>

lemma get_readings_returns:
  assumes "drawable s"
  shows "\<exists>readings s'. get_readings R s = (Inr readings, s')"
  using assms
  by (auto simp: drawable_def get_readings_def randint_def randint_sized_def
        split: sum.splits list.splits prod.splits)

lemma duplicate_names_returned:
  assumes contract: "randint_contract R"
    and many: "1 < num_readings s"
    and len: "int (length (reading_names s)) = num_readings s"
    and dup: "\<not> distinct (reading_names s)"
    and ret: "get_readings R s = (Inr readings, s')"
  shows "fst ` set readings = set (reading_names s) \<and>
         distinct (map fst readings) \<and>
         int (length readings) < num_readings s \<and>
         length (drawn_values R s) = length (reading_names s) \<and>
         (\<forall>i < length (reading_names s).
            (\<forall>j. i < j \<and> j < length (reading_names s) \<longrightarrow>
                 reading_names s ! j \<noteq> reading_names s ! i) \<longrightarrow>
            map_of readings (reading_names s ! i) = Some (drawn_values R s ! i))"
proof -
  from many have ne: "num_readings s \<noteq> 1" and some: "num_readings s \<noteq> 0" by simp_all
  from get_readings_multi [OF ret ne some] obtain d where
    d: "np_getattr (dtype s) = Inr d" and ok: "bounds_ok d (low s) (high s)" and
    rd: "readings = dict_comprehension (zip (reading_names s) (drawn_values R s))"
    by blast
  from contract ok have "length (drawn_values R s) = nat (num_readings s)"
    unfolding randint_contract_def drawn_values_def d by simp
  with len have eq: "length (drawn_values R s) = length (reading_names s)" by simp
  then have keys: "map fst (zip (reading_names s) (drawn_values R s)) = reading_names s"
    by simp
  have k: "fst ` set readings = set (reading_names s)"
    unfolding rd keys_dict_comprehension using keys by (metis set_map)
  have "length readings = card (set (reading_names s))"
    unfolding rd length_dict_comprehension using keys by (metis set_map)
  also have "\<dots> < length (reading_names s)" using dup by (rule not_distinct_card)
  finally have fewer: "int (length readings) < num_readings s" using len by simp
  have last: "\<forall>i < length (reading_names s).
            (\<forall>j. i < j \<and> j < length (reading_names s) \<longrightarrow>
                 reading_names s ! j \<noteq> reading_names s ! i) \<longrightarrow>
            map_of readings (reading_names s ! i) = Some (drawn_values R s ! i)"
  proof (intro allI impI)
    fix i assume i: "i < length (reading_names s)"
      and later: "\<forall>j. i < j \<and> j < length (reading_names s) \<longrightarrow>
                 reading_names s ! j \<noteq> reading_names s ! i"
    let ?kvs = "zip (reading_names s) (drawn_values R s)"
    have l: "length ?kvs = length (reading_names s)" using eq by simp
    have a: "i < length ?kvs" using i l by simp
    have b: "?kvs ! i = (reading_names s ! i, drawn_values R s ! i)" using i eq by simp
    have c: "\<forall>j. i < j \<and> j < length ?kvs \<longrightarrow> fst (?kvs ! j) \<noteq> reading_names s ! i"
      using later eq by simp
    show "map_of readings (reading_names s ! i) = Some (drawn_values R s ! i)"
      unfolding rd map_of_dict_comprehension by (rule map_of_rev_last [OF a b c])
  qed
  from k distinct_dict_comprehension fewer eq last show ?thesis unfolding rd by blast
qed

text \<open>
  C9. Take a state with \<open>num_readings > 1\<close>, as many reading names as channels, a name
  that occurs twice, and a dtype and bounds that numpy accepts. Then \<open>get_readings\<close>
  returns a mapping whose keys are exactly the distinct names, so it has fewer entries
  than \<open>num_readings\<close>, and every name is bound to the value drawn for the last channel
  that bears it.
\<close>

theorem duplicate_names_last_wins:
  assumes "randint_contract R"
    and "drawable s"
    and "1 < num_readings s"
    and "int (length (reading_names s)) = num_readings s"
    and "\<not> distinct (reading_names s)"
  shows "\<exists>readings s'.
           get_readings R s = (Inr readings, s') \<and>
           fst ` set readings = set (reading_names s) \<and>
           distinct (map fst readings) \<and>
           int (length readings) < num_readings s \<and>
           length (drawn_values R s) = length (reading_names s) \<and>
           (\<forall>i < length (reading_names s).
              (\<forall>j. i < j \<and> j < length (reading_names s) \<longrightarrow>
                   reading_names s ! j \<noteq> reading_names s ! i) \<longrightarrow>
              map_of readings (reading_names s ! i) = Some (drawn_values R s ! i))"
proof -
  from get_readings_returns [OF assms(2)] obtain readings s' where
    ret: "get_readings R s = (Inr readings, s')" by blast
  from ret duplicate_names_returned [OF assms(1,3,4,5) ret] show ?thesis by blast
qed

text \<open>
  An instance: names \<open>a, b, a\<close> and draws \<open>7, 8, 9\<close> give \<open>{"a": 9, "b": 8}\<close>.
\<close>

lemma aba_reading:
  "get_readings counter_source
     \<lparr> low = 0, high = 100, num_readings = 3, reading_names = [''a'', ''b'', ''a''],
       dtype = ''int32'', seed = None, np_random = 7 \<rparr>
   = (Inr [(''a'', 9), (''b'', 8)],
      \<lparr> low = 0, high = 100, num_readings = 3, reading_names = [''a'', ''b'', ''a''],
        dtype = ''int32'', seed = None, np_random = 10 \<rparr>)"
  by (simp add: get_readings_def np_getattr_def randint_sized_def bounds_ok_def
        counter_source_def dict_comprehension_def upt_rec)

lemma aba_drawn:
  "drawn_values counter_source
     \<lparr> low = 0, high = 100, num_readings = 3, reading_names = [''a'', ''b'', ''a''],
       dtype = ''int32'', seed = None, np_random = 7 \<rparr> = [7, 8, 9]"
  by (simp add: drawn_values_def np_getattr_def counter_source_def upt_rec)

theorem duplicate_names_last_wins_witness:
  "randint_contract counter_source \<and>
   drawable \<lparr> low = 0, high = 100, num_readings = 3, reading_names = [''a'', ''b'', ''a''],
              dtype = ''int32'', seed = None, np_random = 7::int \<rparr> \<and>
   get_readings counter_source
     \<lparr> low = 0, high = 100, num_readings = 3, reading_names = [''a'', ''b'', ''a''],
       dtype = ''int32'', seed = None, np_random = 7 \<rparr>
   = (Inr [(''a'', 9), (''b'', 8)],
      \<lparr> low = 0, high = 100, num_readings = 3, reading_names = [''a'', ''b'', ''a''],
        dtype = ''int32'', seed = None, np_random = 10 \<rparr>) \<and>
   \<not> distinct [''a'', ''b'', ''a''] \<and>
   fst ` set [(''a'', 9::int), (''b'', 8)] = set [''a'', ''b'', ''a''] \<and>
   length [(''a'', 9::int), (''b'', 8)] < 3 \<and>
   map_of [(''a'', 9::int), (''b'', 8)] ([''a'', ''b'', ''a''] ! 2) = Some ([7, 8, 9] ! 2)"
proof -
  let ?s = "\<lparr> low = 0, high = 100, num_readings = 3, reading_names = [''a'', ''b'', ''a''],
       dtype = ''int32'', seed = None, np_random = 7::int \<rparr>"
  have ok: "drawable ?s" by (simp add: drawable_def np_getattr_def bounds_ok_def)
  have many: "1 < num_readings ?s" by simp
  have len: "int (length (reading_names ?s)) = num_readings ?s" by simp
  have dup: "\<not> distinct (reading_names ?s)" by simp
  from duplicate_names_last_wins [OF counter_source_contract ok many len dup]
  obtain readings s' where ret: "get_readings counter_source ?s = (Inr readings, s')"
    and keys': "fst ` set readings = set (reading_names ?s)"
    and fewer': "int (length readings) < num_readings ?s"
    and last': "\<forall>i < length (reading_names ?s).
              (\<forall>j. i < j \<and> j < length (reading_names ?s) \<longrightarrow>
                   reading_names ?s ! j \<noteq> reading_names ?s ! i) \<longrightarrow>
              map_of readings (reading_names ?s ! i) = Some (drawn_values counter_source ?s ! i)"
    by blast
  from ret have rd: "readings = [(''a'', 9), (''b'', 8)]" by (simp add: aba_reading)
  have keys: "fst ` set [(''a'', 9::int), (''b'', 8)] = set [''a'', ''b'', ''a'']"
    using keys' unfolding rd by simp
  have fewer: "length [(''a'', 9::int), (''b'', 8)] < 3"
    using fewer' unfolding rd by simp
  have two: "2 < length (reading_names ?s)" by simp
  have none_later: "\<forall>j. 2 < j \<and> j < length (reading_names ?s) \<longrightarrow>
                 reading_names ?s ! j \<noteq> reading_names ?s ! 2"
    by simp
  have "map_of [(''a'', 9::int), (''b'', 8)] (reading_names ?s ! 2)
          = Some (drawn_values counter_source ?s ! 2)"
    using last' two none_later unfolding rd by blast
  then have last: "map_of [(''a'', 9::int), (''b'', 8)] ([''a'', ''b'', ''a''] ! 2)
       = Some ([7, 8, 9] ! 2)"
    by (simp only: aba_drawn generator.simps)
  from dup have dup': "\<not> distinct [''a'', ''b'', ''a'']" by simp
  show ?thesis
    by (rule conjI [OF counter_source_contract conjI [OF ok conjI [OF aba_reading
          conjI [OF dup' conjI [OF keys conjI [OF fewer last]]]]]])
qed

subsection \<open>C10: a missing or empty command\<close>

text \<open>
  C10. When the parameter mapping has no \<open>command\<close> key, or binds it to the empty
  string, \<open>do_command\<close> raises the ValueError of a missing command, which is not
  NotImplementedError, and leaves the generator as it was.
\<close>

theorem missing_command_is_value_error:
  assumes "command ''command'' = None \<or> command ''command'' = Some (PyStr [])"
  shows "do_command R command s = (Inl MissingCommand, s) \<and>
         exc_class MissingCommand = ValueError \<and>
         exc_class MissingCommand \<noteq> NotImplementedError"
  using assms by (auto simp: do_command_def)

theorem missing_command_is_value_error_witness:
  "[''size'' \<mapsto> PyInt 3] ''command'' = None \<and>
   do_command counter_source [''size'' \<mapsto> PyInt 3] (init 7) = (Inl MissingCommand, init 7) \<and>
   do_command counter_source [''command'' \<mapsto> PyStr [], ''seed'' \<mapsto> PyInt 1] (init 7)
     = (Inl MissingCommand, init 7) \<and>
   exc_class MissingCommand = ValueError"
proof -
  have a: "[''size'' \<mapsto> PyInt 3] ''command'' = None" by simp
  have b: "[''command'' \<mapsto> PyStr [], ''seed'' \<mapsto> PyInt 1] ''command'' = Some (PyStr [])"
    by simp
  note first = missing_command_is_value_error
      [where command = "[''size'' \<mapsto> PyInt 3]" and R = counter_source and s = "init 7",
       OF disjI1, OF a]
  note second = missing_command_is_value_error
      [where command = "[''command'' \<mapsto> PyStr [], ''seed'' \<mapsto> PyInt 1]"
         and R = counter_source and s = "init 7",
       OF disjI2, OF b]
  from a first second show ?thesis by blast
qed

end
